theory Spec2Isabelle
  imports Complex_Main "HOL-Library.Multiset"
begin

text \<open>
  A shallow embedding of the magic-move code animator: the markdown parser
  (\<^verbatim>\<open>app/lib/magicMove/parseMagicMove.ts\<close>, \<^verbatim>\<open>parseLineMeta.ts\<close>) and the playback and
  export logic of \<^verbatim>\<open>app/page.tsx\<close>.

  Conventions of the model.
  \<^item> A JavaScript string is a \<open>string\<close>; each \<open>char\<close> stands for one code unit below 256.
    White space and line terminators are the members of the JavaScript classes in
    that range.
  \<^item> A JavaScript number that measures time or a position is a \<open>real\<close>; a step count or
    an index is a \<open>nat\<close>; a line number that went through \<open>Math.floor\<close> is an \<open>int\<close>.
  \<^item> A regular expression of the source is a function that returns what the
    backtracking matcher returns: the first match in its priority order.
  \<^item> The conversion \<open>Number(text)\<close> is an argument \<open>Number\<close> of the parser, so that
    what is proved holds for the conversion of the language, whatever it returns.
\<close>

section \<open>Strings\<close>

definition LF :: char where "LF = CHR 0x0A"
definition CR :: char where "CR = CHR 0x0D"

text \<open>The white-space class of the regular expressions, which is also what \<open>trim\<close> removes.\<close>

definition isWhiteSpace :: "char \<Rightarrow> bool" where
  "isWhiteSpace c =
     (c = CHR 0x09 \<or> c = CHR 0x0A \<or> c = CHR 0x0B \<or> c = CHR 0x0C \<or> c = CHR 0x0D
      \<or> c = CHR 0x20 \<or> c = CHR 0xA0)"

text \<open>The characters that the dot of a regular expression does not match.\<close>

definition isLineTerminator :: "char \<Rightarrow> bool" where
  "isLineTerminator c = (c = CHR 0x0A \<or> c = CHR 0x0D)"

definition trim :: "string \<Rightarrow> string" where
  "trim s = rev (dropWhile isWhiteSpace (rev (dropWhile isWhiteSpace s)))"

definition startsWith :: "string \<Rightarrow> string \<Rightarrow> bool" where
  "startsWith s p = (take (length p) s = p)"

text \<open>\<open>split\<close> at a separator of one character: the result is never the empty list.\<close>

fun splitOn :: "char \<Rightarrow> string \<Rightarrow> string list" where
  "splitOn sep [] = [[]]"
| "splitOn sep (c # cs) =
     (if c = sep then [] # splitOn sep cs
      else (case splitOn sep cs of [] \<Rightarrow> [[c]] | w # ws \<Rightarrow> (c # w) # ws))"

text \<open>\<open>join\<close> with a line feed between the lines.\<close>

fun joinLines :: "string list \<Rightarrow> string" where
  "joinLines [] = []"
| "joinLines [l] = l"
| "joinLines (l # ls) = l @ LF # joinLines ls"

text \<open>Every carriage return followed by a line feed becomes a line feed.\<close>

fun replaceCRLF :: "string \<Rightarrow> string" where
  "replaceCRLF (c # d # cs) =
     (if c = CR \<and> d = LF then LF # replaceCRLF cs else c # replaceCRLF (d # cs))"
| "replaceCRLF cs = cs"

text \<open>The decimal numeral that a template literal prints for a step number.\<close>

function showNat :: "nat \<Rightarrow> string" where
  "showNat n =
     (if n < 10 then [char_of (48 + n)]
      else showNat (n div 10) @ [char_of (48 + n mod 10)])"
  by pat_completeness auto
termination
  by (relation "measure id") auto

section \<open>Fence metadata (parseLineMeta.ts)\<close>

text \<open>
  What \<open>Number\<close> returns: not a number, an infinity (\<open>True\<close> for the positive one), or
  a finite value.
\<close>

datatype JsNumber = JsNaN | JsInfinity bool | JsFinite real

record MagicMoveStepMeta =
  lines :: bool
  startLine :: int

record Specified =
  linesSpecified :: bool
  startLineSpecified :: bool

record LineMetaParseResult =
  meta :: MagicMoveStepMeta
  specified :: Specified

text \<open>
  The contents of the brace groups of a string, in order: the first groups of all the
  matches of an opening brace, the longest run of characters other than a closing
  brace, and a closing brace. A match starts at the first opening brace that has a
  closing brace after it, and the search goes on after that closing brace.
\<close>

function braceGroups :: "string \<Rightarrow> string list" where
  "braceGroups [] = []"
| "braceGroups (c # cs) =
     (if c = CHR ''{'' \<and> dropWhile (\<lambda>x. x \<noteq> CHR ''}'') cs \<noteq> []
      then takeWhile (\<lambda>x. x \<noteq> CHR ''}'') cs
           # braceGroups (tl (dropWhile (\<lambda>x. x \<noteq> CHR ''}'') cs))
      else braceGroups cs)"
  by pat_completeness auto
termination
proof (relation "measure length")
  show "wf (measure length)" by simp
next
  fix c :: char and cs :: string
  have "length (tl (dropWhile (\<lambda>x. x \<noteq> CHR ''}'') cs)) \<le> length cs"
    using length_dropWhile_le [of "\<lambda>x. x \<noteq> CHR ''}''" cs] by simp
  then show "(tl (dropWhile (\<lambda>x. x \<noteq> CHR ''}'') cs), c # cs) \<in> measure length"
    by simp
next
  fix c :: char and cs :: string
  show "(cs, c # cs) \<in> measure length" by simp
qed

text \<open>
  The destructuring of a part split at the colons, each piece trimmed: the key is
  the first piece, the value is the second one, undefined (\<open>None\<close>) when there is none.
\<close>

definition keyOf :: "string \<Rightarrow> string" where
  "keyOf part = (case map trim (splitOn (CHR '':'') part) of [] \<Rightarrow> [] | rawKey # _ \<Rightarrow> rawKey)"

definition valueOf :: "string \<Rightarrow> string option" where
  "valueOf part =
     (case map trim (splitOn (CHR '':'') part) of
        _ # rawValue # _ \<Rightarrow> Some rawValue
      | _ \<Rightarrow> None)"

text \<open>
  The body of the inner loop: one part of a brace group, applied to the result so
  far. \<open>Number\<close> of an undefined value is not a number.
\<close>

definition parsePart ::
  "(string \<Rightarrow> JsNumber) \<Rightarrow> LineMetaParseResult \<Rightarrow> string \<Rightarrow> LineMetaParseResult" where
  "parsePart Number r rawPart =
     (let part = trim rawPart
      in if part = [] then r
         else
           (let rawKey = keyOf part; rawValue = valueOf part
            in if rawKey = [] then r
               else if rawKey = ''lines''
               then r\<lparr>meta := (meta r)\<lparr>lines := (rawValue = Some ''true'')\<rparr>,
                      specified := (specified r)\<lparr>linesSpecified := True\<rparr>\<rparr>
               else if rawKey = ''startLine''
               then
                 (case (case rawValue of None \<Rightarrow> JsNaN | Some v \<Rightarrow> Number v) of
                    JsFinite n \<Rightarrow>
                      if 1 \<le> n
                      then r\<lparr>meta := (meta r)\<lparr>startLine := \<lfloor>n\<rfloor>\<rparr>,
                             specified := (specified r)\<lparr>startLineSpecified := True\<rparr>\<rparr>
                      else r
                  | _ \<Rightarrow> r)
               else r))"

text \<open>The parts the two loops visit, in order: every group split at the commas.\<close>

definition metaParts :: "string \<Rightarrow> string list" where
  "metaParts infoText = concat (map (splitOn (CHR '','')) (braceGroups infoText))"

text \<open>Both callers pass a string, so the test for a missing argument is the test for the empty string.\<close>

definition parseLineMetaDetailed :: "(string \<Rightarrow> JsNumber) \<Rightarrow> string \<Rightarrow> LineMetaParseResult" where
  "parseLineMetaDetailed Number infoText =
     (let r0 = \<lparr>meta = \<lparr>lines = False, startLine = 1\<rparr>,
                specified = \<lparr>linesSpecified = False, startLineSpecified = False\<rparr>\<rparr>
      in if infoText = [] then r0
         else foldl (parsePart Number) r0 (metaParts infoText))"

section \<open>Blocks and steps (parseMagicMove.ts)\<close>

record Fence =
  fence :: string
  info :: string
  body :: string

text \<open>
  The opening line of a fence: at least three backquotes, all of them in the first
  group, and the rest of the line in the second. The dot does not match a line
  terminator and the pattern ends at the end of the line, so a line with a carriage
  return after the backquotes does not open a fence.
\<close>

definition openFence :: "string \<Rightarrow> (string \<times> string) option" where
  "openFence line =
     (let ticks = takeWhile (\<lambda>c. c = CHR ''`'') line;
          rest = dropWhile (\<lambda>c. c = CHR ''`'') line
      in if 3 \<le> length ticks \<and> \<not> list_ex isLineTerminator rest
         then Some (ticks, rest) else None)"

text \<open>
  The inner loop of \<open>parseFencedBlocks\<close>: the lines of the body, the lines after the
  closing line, and whether a closing line (one that starts with the opening
  backquotes) was found.
\<close>

fun collectBody :: "string \<Rightarrow> string list \<Rightarrow> string list \<times> string list \<times> bool" where
  "collectBody ticks [] = ([], [], False)"
| "collectBody ticks (l # ls) =
     (if startsWith l ticks then ([], ls, True)
      else (case collectBody ticks ls of
              (bodyLines, rest, isClosed) \<Rightarrow> (l # bodyLines, rest, isClosed)))"

lemma collectBody_length:
  "collectBody ticks ls = (bodyLines, rest, isClosed) \<Longrightarrow> length rest \<le> length ls"
  by (induction ls arbitrary: bodyLines) (auto split: if_splits prod.splits)

text \<open>The outer loop, over the lines that are left; it stops after a fence that is not closed.\<close>

function parseFencedLines :: "string list \<Rightarrow> Fence list" where
  "parseFencedLines [] = []"
| "parseFencedLines (line # ls) =
     (case openFence line of
        None \<Rightarrow> parseFencedLines ls
      | Some (ticks, infoText) \<Rightarrow>
          (case collectBody ticks ls of
             (bodyLines, rest, isClosed) \<Rightarrow>
               \<lparr>fence = ticks, info = trim infoText, body = joinLines bodyLines\<rparr>
               # (if isClosed then parseFencedLines rest else [])))"
  by pat_completeness auto
termination
  by (relation "measure length") (auto dest: collectBody_length [OF sym])

definition parseFencedBlocks :: "string \<Rightarrow> Fence list" where
  "parseFencedBlocks input = parseFencedLines (splitOn LF (replaceCRLF input))"

text \<open>
  \<open>stripFirstWord\<close>: the longest run of characters that are not white space, then, if
  anything follows, white space and the rest up to the end. The rest is matched by
  dots, so the pattern fails when a line terminator follows the white space; with
  no match both results are empty.
\<close>

definition stripFirstWord :: "string \<Rightarrow> string \<times> string" where
  "stripFirstWord infoText =
     (let first = takeWhile (\<lambda>c. \<not> isWhiteSpace c) infoText;
          after = dropWhile (\<lambda>c. \<not> isWhiteSpace c) infoText
      in if first = [] then ([], [])
         else if after = [] then (first, [])
         else
           (let rest = dropWhile isWhiteSpace after
            in if list_ex isLineTerminator rest then ([], [])
               else (first, trim rest)))"

record MagicMoveStep =
  lang :: string
  code :: string
  stepMeta :: MagicMoveStepMeta

record MagicMoveBlock =
  kind :: string
  outerMeta :: MagicMoveStepMeta
  steps :: "MagicMoveStep list"
  errors :: "string list"

record MagicMoveParseResult =
  blocks :: "MagicMoveBlock list"
  docErrors :: "string list"

subsection \<open>The pattern of a block\<close>

text \<open>
  The pattern of \<open>parseMagicMove\<close> is, in order: the start of the input or a line feed;
  four backquotes; white space; the keyword, \<^verbatim>\<open>md\<close>, white space and \<^verbatim>\<open>magic-move\<close>, or
  \<^verbatim>\<open>shiki-magic-move\<close> (second group); white space; the longest run of characters
  other than a line feed (third group); a line feed; the shortest text (fourth group)
  followed by a line feed and four backquotes that stand before a line feed or at
  the end of the input.

  \<open>leadIn\<close> is the first alternative; \<open>True\<close> says that the match starts at index 0.
  White space before a keyword and inside it can only be matched whole, since a
  keyword starts with a letter.
\<close>

definition leadIn :: "bool \<Rightarrow> string \<Rightarrow> string option" where
  "leadIn atStart s =
     (if atStart \<and> startsWith s ''````'' then Some s
      else (case s of [] \<Rightarrow> None | c # cs \<Rightarrow> if c = LF then Some cs else None))"

definition matchKeyword :: "string \<Rightarrow> (string \<times> string) option" where
  "matchKeyword s =
     (let s1 = drop 2 s;
          ws = takeWhile isWhiteSpace s1;
          s2 = dropWhile isWhiteSpace s1
      in if startsWith s ''md'' \<and> ws \<noteq> [] \<and> startsWith s2 ''magic-move''
         then Some (''md'' @ ws @ ''magic-move'', drop 10 s2)
         else if startsWith s ''shiki-magic-move''
         then Some (''shiki-magic-move'', drop 16 s)
         else None)"

text \<open>
  The shortest text before a closing line: the text, and what follows the four
  closing backquotes.
\<close>

fun findClose :: "string \<Rightarrow> (string \<times> string) option" where
  "findClose [] = None"
| "findClose (c # cs) =
     (if startsWith (c # cs) (LF # ''````'')
         \<and> (drop 5 (c # cs) = [] \<or> startsWith (drop 5 (c # cs)) [LF])
      then Some ([], drop 5 (c # cs))
      else (case findClose cs of
              None \<Rightarrow> None
            | Some (innerText, rest) \<Rightarrow> Some (c # innerText, rest)))"

text \<open>
  The third group and what follows it, from the place where the white space after
  the keyword stopped. The third group is greedy and a line feed must follow it, so
  it is the whole text up to the next line feed.
\<close>

definition lineThenBody :: "string \<Rightarrow> (string \<times> string \<times> string) option" where
  "lineThenBody s =
     (case dropWhile (\<lambda>c. c \<noteq> LF) s of
        [] \<Rightarrow> None
      | _ # bodyStart \<Rightarrow>
          (case findClose bodyStart of
             None \<Rightarrow> None
           | Some (innerText, rest) \<Rightarrow> Some (takeWhile (\<lambda>c. c \<noteq> LF) s, innerText, rest)))"

text \<open>
  The white space after the keyword is greedy: the matcher first lets it take all \<open>k\<close>
  white-space characters that follow, line feeds included, and gives them back one
  by one while the rest of the pattern fails.
\<close>

fun backtrackWs :: "nat \<Rightarrow> string \<Rightarrow> (string \<times> string \<times> string) option" where
  "backtrackWs 0 s = lineThenBody s"
| "backtrackWs (Suc k) s =
     (case lineThenBody (drop (Suc k) s) of
        Some r \<Rightarrow> Some r
      | None \<Rightarrow> backtrackWs k s)"

text \<open>A match that starts at the head of \<open>s\<close>: its groups 2, 3 and 4, and the input after it.\<close>

definition matchHere ::
  "bool \<Rightarrow> string \<Rightarrow> ((string \<times> string \<times> string) \<times> string) option" where
  "matchHere atStart s =
     (case leadIn atStart s of
        None \<Rightarrow> None
      | Some p \<Rightarrow>
          if \<not> startsWith p ''````'' then None
          else
            (case matchKeyword (dropWhile isWhiteSpace (drop 4 p)) of
               None \<Rightarrow> None
             | Some (keyword, r) \<Rightarrow>
                 (case backtrackWs (length (takeWhile isWhiteSpace r)) r of
                    None \<Rightarrow> None
                  | Some (outerInfo, innerText, rest) \<Rightarrow>
                      Some ((keyword, outerInfo, innerText), rest))))"

lemma findClose_length: "findClose s = Some (innerText, rest) \<Longrightarrow> length rest < length s"
  by (induction s arbitrary: innerText) (auto split: if_splits option.splits)

lemma lineThenBody_length:
  assumes "lineThenBody s = Some (outerInfo, innerText, rest)"
  shows "length rest < length s"
proof -
  from assms obtain c bodyStart where d: "dropWhile (\<lambda>c. c \<noteq> LF) s = c # bodyStart"
    and f: "findClose bodyStart = Some (innerText, rest)"
    by (auto simp: lineThenBody_def split: list.splits option.splits)
  have "length (dropWhile (\<lambda>c. c \<noteq> LF) s) \<le> length s" by (rule length_dropWhile_le)
  with d findClose_length [OF f] show ?thesis by simp
qed

lemma backtrackWs_length:
  "backtrackWs k s = Some (outerInfo, innerText, rest) \<Longrightarrow> length rest < length s"
proof (induction k)
  case 0
  then show ?case by (simp add: lineThenBody_length)
next
  case (Suc k)
  show ?case
  proof (cases "lineThenBody (drop (Suc k) s)")
    case None
    with Suc show ?thesis by simp
  next
    case (Some r)
    with Suc.prems have "lineThenBody (drop (Suc k) s) = Some (outerInfo, innerText, rest)"
      by simp
    from lineThenBody_length [OF this] show ?thesis by simp
  qed
qed

lemma matchKeyword_length: "matchKeyword s = Some (keyword, r) \<Longrightarrow> length r \<le> length s"
proof -
  assume a: "matchKeyword s = Some (keyword, r)"
  have "length (dropWhile isWhiteSpace (drop 2 s)) \<le> length (drop 2 s)"
    by (rule length_dropWhile_le)
  with a show ?thesis
    by (auto simp: matchKeyword_def Let_def split: if_splits)
qed

lemma leadIn_length: "leadIn atStart s = Some p \<Longrightarrow> length p \<le> length s"
  by (auto simp: leadIn_def split: if_splits list.splits)

lemma matchHere_length:
  assumes "matchHere atStart s = Some (m, rest)"
  shows "length rest < length s"
proof -
  from assms obtain p where l: "leadIn atStart s = Some p"
    by (auto simp: matchHere_def split: option.splits)
  with assms obtain keyword r where
    k: "matchKeyword (dropWhile isWhiteSpace (drop 4 p)) = Some (keyword, r)"
    by (auto simp: matchHere_def split: option.splits if_splits)
  with assms l obtain outerInfo innerText where
    b: "backtrackWs (length (takeWhile isWhiteSpace r)) r = Some (outerInfo, innerText, rest)"
    by (auto simp: matchHere_def split: option.splits if_splits)
  have "length (dropWhile isWhiteSpace (drop 4 p)) \<le> length (drop 4 p)"
    by (rule length_dropWhile_le)
  with matchKeyword_length [OF k] have "length r \<le> length p" by simp
  with leadIn_length [OF l] backtrackWs_length [OF b] show ?thesis by simp
qed

text \<open>
  All the matches, from left to right: after a match the search goes on where the
  match ended, and where no match starts it moves on by one character.
\<close>

function matchAllBlocks :: "bool \<Rightarrow> string \<Rightarrow> (string \<times> string \<times> string) list" where
  "matchAllBlocks atStart s =
     (case matchHere atStart s of
        Some (m, rest) \<Rightarrow> m # matchAllBlocks False rest
      | None \<Rightarrow> (case s of [] \<Rightarrow> [] | c # cs \<Rightarrow> matchAllBlocks False cs))"
  by pat_completeness auto
termination
  by (relation "measure (\<lambda>(atStart, s). length s)") (auto dest: matchHere_length)

subsection \<open>Steps, errors and the result\<close>

text \<open>The body of the loop over the fences, for a fence of three backquotes.\<close>

definition makeStep :: "(string \<Rightarrow> JsNumber) \<Rightarrow> MagicMoveStepMeta \<Rightarrow> Fence \<Rightarrow> MagicMoveStep" where
  "makeStep Number outer f =
     (case stripFirstWord (info f) of
        (first, rest) \<Rightarrow>
          (let parsed = parseLineMetaDetailed Number rest;
               m = \<lparr>lines = (if linesSpecified (specified parsed)
                              then lines (meta parsed) else lines outer),
                    startLine = (if startLineSpecified (specified parsed)
                                 then startLine (meta parsed) else startLine outer)\<rparr>
           in \<lparr>lang = (if first = [] then ''text'' else first), code = body f, stepMeta = m\<rparr>))"

definition noStepsError :: string where
  "noStepsError = ''No code steps found inside this magic-move block.''"

definition startLineError :: "nat \<Rightarrow> string" where
  "startLineError idx = ''Step '' @ showNat (idx + 1) @ '': startLine must be >= 1''"

definition blockErrors :: "MagicMoveStep list \<Rightarrow> string list" where
  "blockErrors ss =
     (if length ss = 0 then [noStepsError] else [])
     @ concat (map (\<lambda>(idx, s). if startLine (stepMeta s) < 1 then [startLineError idx] else [])
                 (enumerate 0 ss))"

text \<open>The body of the loop over the matches: \<open>m\<close> holds the groups 2, 3 and 4.\<close>

definition parseBlock :: "(string \<Rightarrow> JsNumber) \<Rightarrow> string \<times> string \<times> string \<Rightarrow> MagicMoveBlock" where
  "parseBlock Number m =
     (case m of
        (m2, m3, m4) \<Rightarrow>
          (let outer = meta (parseLineMetaDetailed Number (trim m3));
               ss = map (makeStep Number outer)
                      (filter (\<lambda>f. fence f = ''```'') (parseFencedBlocks m4))
           in \<lparr>kind = trim m2, outerMeta = outer, steps = ss, errors = blockErrors ss\<rparr>))"

definition noBlocksError :: string where
  "noBlocksError =
     ''No magic-move blocks found.\<newline>\<newline>Supported formats:\<newline>- ````md magic-move ... ```` (4 backticks)\<newline>- ````shiki-magic-move {lines:true} ... ```` (4 backticks)\<newline>\<newline>Inside, include multiple triple-backtick code fences (```lang ... ```).''"

definition parseMagicMove :: "(string \<Rightarrow> JsNumber) \<Rightarrow> string \<Rightarrow> MagicMoveParseResult" where
  "parseMagicMove Number input =
     (let bs = map (parseBlock Number) (matchAllBlocks True input)
      in \<lparr>blocks = bs, docErrors = (if length bs = 0 then [noBlocksError] else [])\<rparr>)"

section \<open>Examples\<close>

text \<open>
  A reading of \<open>Number\<close> for the examples: it converts a decimal numeral with an
  optional sign and an optional fraction, the empty string and \<open>Infinity\<close>, and gives
  not a number for every other string. No statement about all inputs depends on it.
\<close>

definition isDigit :: "char \<Rightarrow> bool" where
  "isDigit c = (48 \<le> (of_char c :: nat) \<and> (of_char c :: nat) \<le> 57)"

definition digitsValue :: "string \<Rightarrow> nat" where
  "digitsValue ds = foldl (\<lambda>a c. 10 * a + (of_char c - 48)) 0 ds"

definition decimalNumber :: "string \<Rightarrow> JsNumber" where
  "decimalNumber s =
     (let t = trim s;
          negative = startsWith t ''-'';
          u = (if startsWith t ''-'' \<or> startsWith t ''+'' then drop 1 t else t);
          whole = takeWhile isDigit u;
          r = dropWhile isDigit u;
          sign = (if negative then - 1 else 1)
      in if t = [] then JsFinite 0
         else if u = ''Infinity'' then JsInfinity (\<not> negative)
         else if r = [] then (if whole = [] then JsNaN else JsFinite (sign * real (digitsValue whole)))
         else if startsWith r ''.'' \<and> list_all isDigit (drop 1 r) \<and> (whole \<noteq> [] \<or> drop 1 r \<noteq> [])
         then JsFinite (sign * (real (digitsValue whole)
                + real (digitsValue (drop 1 r)) / 10 ^ length (drop 1 r)))
         else JsNaN)"

text \<open>A block with outer metadata and two steps, the second of which overrides one key.\<close>

definition demoDoc :: string where
  "demoDoc = ''# Title\<newline>````shiki-magic-move {lines:true,startLine:5}\<newline>```ts\<newline>let a = 1\<newline>```\<newline>\<newline>```ts {startLine:10}\<newline>let a = 2\<newline>let b\<newline>```\<newline>````\<newline>tail''"

text \<open>A block whose steps set \<open>lines\<close> to \<open>false\<close>, to \<open>yes\<close>, to \<open>true\<close> with spaces, and not at all.\<close>

definition linesDoc :: string where
  "linesDoc = ''````md magic-move {lines:true}\<newline>```ts {lines:false}\<newline>a\<newline>```\<newline>```ts {lines:yes}\<newline>b\<newline>```\<newline>```ts { lines : true }\<newline>c\<newline>```\<newline>```\<newline>d\<newline>```\<newline>````''"

text \<open>A block whose first line ends after the keyword, and whose first step has metadata.\<close>

definition bareDoc :: string where
  "bareDoc = ''````shiki-magic-move\<newline>```ts {lines:true}\<newline>a\<newline>```\<newline>```ts\<newline>b\<newline>```\<newline>````''"

text \<open>The example of the README for a block of the form \<open>md magic-move\<close>, which has no metadata.\<close>

definition optionBDoc :: string where
  "optionBDoc = ''````md magic-move\<newline>```js\<newline>console.log(`Step ${1}`)\<newline>```\<newline>```js\<newline>console.log(`Step ${1 + 1}`)\<newline>```\<newline>```ts\<newline>console.log(`Step ${3}` as string)\<newline>```\<newline>````''"

text \<open>
  A block whose steps write \<open>lines:false\<close> as the whole info string, right after the
  language, and after the language and a space.
\<close>

definition firstWordDoc :: string where
  "firstWordDoc = ''````md magic-move {lines:true}\<newline>```{lines:false}\<newline>a\<newline>```\<newline>```ts{lines:false}\<newline>b\<newline>```\<newline>```ts {lines:false}\<newline>c\<newline>```\<newline>````''"

section \<open>Playback (app/page.tsx)\<close>

subsection \<open>The timeline\<close>

text \<open>
  The memoised \<open>timeline\<close> depends on \<open>steps.length\<close> and on the state variable
  \<open>transitionMs\<close>; both are arguments here. The three holds are local constants of
  the source.
\<close>

record Timeline =
  totalMs :: real
  startHold :: real
  betweenHold :: real
  endHold :: real

definition timeline :: "nat \<Rightarrow> real \<Rightarrow> Timeline" where
  "timeline stepCount transitionMs =
     (let startHold' = 250;
          betweenHold' = 120;
          endHold' = 250
      in if stepCount \<le> 1
         then \<lparr>totalMs = startHold' + endHold', startHold = startHold',
               betweenHold = betweenHold', endHold = endHold'\<rparr>
         else
           (let transitions = real stepCount - 1;
                totalMs' = startHold' + transitions * transitionMs
                           + transitions * betweenHold' + endHold'
            in \<lparr>totalMs = totalMs', startHold = startHold',
                betweenHold = betweenHold', endHold = endHold'\<rparr>))"

subsection \<open>What \<open>renderAt\<close> draws\<close>

text \<open>
  A step layout carries the layout of a step (of any type \<open>'l\<close>: the layout engine is
  not part of the model), the number of its token lines and its line numbering.
\<close>

record 'l StepLayout =
  layout :: 'l
  tokenLineCount :: nat
  stepStartLine :: int
  showLineNumbers :: bool

text \<open>
  The arguments of the one call of \<open>drawCodeFrame\<close> that \<open>renderAt\<close> makes, without the
  drawing context, the configuration and the theme, which do not depend on the
  time. \<open>drawTokens\<close> is the optional argument \<open>tokens\<close>: the call
  \<open>animateLayouts({from, to, progress})\<close> that computes it, recorded by its arguments.
\<close>

record 'l DrawCodeFrame =
  drawLayout :: 'l
  drawTokens :: "('l \<times> 'l \<times> real) option"
  drawShowLineNumbers :: bool
  drawStartLine :: int
  drawLineCount :: nat

text \<open>The frame of a step that is held, and the frame of a transition between two steps.\<close>

definition holdFrame :: "'l StepLayout \<Rightarrow> 'l DrawCodeFrame" where
  "holdFrame s =
     \<lparr>drawLayout = layout s, drawTokens = None,
      drawShowLineNumbers = showLineNumbers s,
      drawStartLine = stepStartLine s, drawLineCount = tokenLineCount s\<rparr>"

definition transitionFrame ::
  "'l StepLayout \<Rightarrow> 'l StepLayout \<Rightarrow> real \<Rightarrow> 'l DrawCodeFrame" where
  "transitionFrame a b progress =
     \<lparr>drawLayout = layout b, drawTokens = Some (layout a, layout b, progress),
      drawShowLineNumbers = (showLineNumbers a \<or> showLineNumbers b),
      drawStartLine = stepStartLine b, drawLineCount = tokenLineCount b\<rparr>"

text \<open>
  The loop over the pairs of steps, from pair \<open>i\<close> with \<open>t\<close> milliseconds left, and the
  frame of the last step after it.
\<close>

function pairLoop ::
  "'l StepLayout list \<Rightarrow> real \<Rightarrow> real \<Rightarrow> nat \<Rightarrow> real \<Rightarrow> 'l DrawCodeFrame" where
  "pairLoop sl transitionMs betweenHoldMs i t =
     (if i < length sl - 1
      then
        (let a = sl ! i; b = sl ! (i + 1)
         in if t \<le> transitionMs
            then (let progress = (if transitionMs \<le> 0 then 1 else t / transitionMs)
                  in transitionFrame a b progress)
            else
              (let t1 = t - transitionMs
               in if t1 \<le> betweenHoldMs
                  then holdFrame b
                  else pairLoop sl transitionMs betweenHoldMs (i + 1) (t1 - betweenHoldMs)))
      else holdFrame (sl ! (length sl - 1)))"
  by pat_completeness auto
termination
  by (relation "measure (\<lambda>(sl, transitionMs, betweenHoldMs, i, t). length sl - 1 - i)") auto

declare pairLoop.simps [simp del]

text \<open>
  The mapping from the time to the frame, for a list of step layouts that is not
  empty: the part of \<open>renderAt\<close> from the clamping of the time on.
\<close>

definition frameAt :: "'l StepLayout list \<Rightarrow> Timeline \<Rightarrow> real \<Rightarrow> real \<Rightarrow> 'l DrawCodeFrame" where
  "frameAt sl tline transitionMs ms =
     (let clampMs = max 0 (min (totalMs tline) ms);
          steps' = length sl
      in if steps' = 1 then holdFrame (sl ! 0)
         else
           (let t = clampMs
            in if t < startHold tline then holdFrame (sl ! 0)
               else pairLoop sl transitionMs (betweenHold tline) 0 (t - startHold tline)))"

text \<open>
  What \<open>renderAt\<close> closes over: whether the canvas is mounted and gives a drawing
  context, the step layouts (\<open>None\<close> while they are being built), the timeline and
  the transition duration.
\<close>

record 'l RenderEnv =
  canvasRef :: bool
  context2d :: bool
  stepLayouts :: "'l StepLayout list option"
  envTimeline :: Timeline
  envTransitionMs :: real

text \<open>\<open>renderAt\<close> draws nothing (\<open>None\<close>) when one of its guards returns.\<close>

definition renderAt :: "'l RenderEnv \<Rightarrow> real \<Rightarrow> 'l DrawCodeFrame option" where
  "renderAt env ms =
     (if \<not> canvasRef env then None
      else case stepLayouts env of
        None \<Rightarrow> None
      | Some sl \<Rightarrow>
          if length sl = 0 then None
          else if \<not> context2d env then None
          else Some (frameAt sl (envTimeline env) (envTransitionMs env) ms))"

subsection \<open>The time left at a pair of steps\<close>

text \<open>
  The vocabulary of the statement about \<open>frameAt\<close>: the clamped time, the time left
  when the loop reaches pair \<open>i\<close>, and the condition under which the loop has gone
  past the pairs before \<open>i\<close>.
\<close>

definition clampedMs :: "Timeline \<Rightarrow> real \<Rightarrow> real" where
  "clampedMs tline ms = max 0 (min (totalMs tline) ms)"

definition remaining :: "Timeline \<Rightarrow> real \<Rightarrow> real \<Rightarrow> nat \<Rightarrow> real" where
  "remaining tline transitionMs ms i =
     clampedMs tline ms - startHold tline - real i * (transitionMs + betweenHold tline)"

definition pairsPassed :: "Timeline \<Rightarrow> real \<Rightarrow> real \<Rightarrow> nat \<Rightarrow> bool" where
  "pairsPassed tline transitionMs ms i =
     (\<forall>j<i. transitionMs < remaining tline transitionMs ms j
            \<and> betweenHold tline < remaining tline transitionMs ms j - transitionMs)"

definition demoLayouts :: "nat StepLayout list" where
  "demoLayouts =
     [\<lparr>layout = 0, tokenLineCount = 3, stepStartLine = 1, showLineNumbers = False\<rparr>,
      \<lparr>layout = 1, tokenLineCount = 4, stepStartLine = 1, showLineNumbers = True\<rparr>,
      \<lparr>layout = 2, tokenLineCount = 5, stepStartLine = 7, showLineNumbers = False\<rparr>]"

section \<open>Export (app/page.tsx, \<open>onExport\<close>)\<close>

text \<open>
  The state that \<open>onExport\<close> reads and writes: the React state variables it sets,
  the URLs it revoked, and the times it passed to \<open>renderAt\<close>, oldest first.
\<close>

record ExportState =
  isExporting :: bool
  exportProgress :: real
  downloadUrl :: "string option"
  layoutError :: "string option"
  playheadMs :: real
  revokedUrls :: "string list"
  renderCalls :: "real list"

text \<open>
  What happens while \<open>onExport\<close> awaits the recorder: an animation frame runs
  \<open>renderLoop\<close> at some elapsed time, or the recorder reports its progress. The
  recorder then resolves with a blob, for which an object URL is made, or rejects,
  with a message when the reason is an \<open>Error\<close>.
\<close>

datatype RecordingEvent = AnimationFrame real | Progress real real

datatype RecordingResult = Resolved string | Rejected "string option"

text \<open>
  One event. The flag says whether \<open>renderLoop\<close> is scheduled: it schedules itself
  again only while the elapsed time is below the duration.
\<close>

definition recordingEvent ::
  "real \<Rightarrow> ExportState \<times> bool \<Rightarrow> RecordingEvent \<Rightarrow> ExportState \<times> bool" where
  "recordingEvent durationMs st ev =
     (case st of
        (s, scheduled) \<Rightarrow>
          (case ev of
             AnimationFrame elapsed \<Rightarrow>
               if scheduled
               then (s\<lparr>renderCalls := renderCalls s @ [elapsed]\<rparr>, elapsed < durationMs)
               else (s, scheduled)
           | Progress elapsed totalTime \<Rightarrow>
               (s\<lparr>exportProgress := (if totalTime \<le> 0 then 0 else elapsed / totalTime)\<rparr>,
                scheduled)))"

text \<open>
  \<open>onExport\<close>, given what happens during the recording and how the recording ends.
  The two guards return before anything is set. After them come the settings
  before the recording, the recording, the branch of the \<open>try\<close> or of the \<open>catch\<close>,
  and the \<open>finally\<close> block.
\<close>

definition onExport ::
  "'l RenderEnv \<Rightarrow> RecordingEvent list \<Rightarrow> RecordingResult \<Rightarrow> ExportState \<Rightarrow> ExportState" where
  "onExport env events result s =
     (if \<not> canvasRef env then s
      else case stepLayouts env of
        None \<Rightarrow> s
      | Some sl \<Rightarrow>
          if length sl = 0 then s
          else
            (let s1 = s\<lparr>isExporting := True, exportProgress := 0,
                        revokedUrls := (case downloadUrl s of
                                          None \<Rightarrow> revokedUrls s
                                        | Some u \<Rightarrow> if u = [] then revokedUrls s
                                                    else revokedUrls s @ [u]),
                        downloadUrl := None\<rparr>;
                 durationMs = totalMs (envTimeline env);
                 s2 = fst (foldl (recordingEvent durationMs) (s1, True) events);
                 s3 = (case result of
                         Resolved url \<Rightarrow> s2\<lparr>downloadUrl := Some url\<rparr>
                       | Rejected e \<Rightarrow>
                           s2\<lparr>layoutError :=
                                Some (case e of Some message \<Rightarrow> message
                                      | None \<Rightarrow> ''Export failed'')\<rparr>)
             in s3\<lparr>isExporting := False, exportProgress := 0, playheadMs := 0,
                   renderCalls := renderCalls s3 @ [0]\<rparr>))"

definition demoEnv :: "nat RenderEnv" where
  "demoEnv =
     \<lparr>canvasRef = True, context2d = True, stepLayouts = Some demoLayouts,
      envTimeline = timeline 3 800, envTransitionMs = 800\<rparr>"


section \<open>Token animation\<close>

text \<open>
  Modelled from the spec: the layout of a step and an animated token, the data of
  \<open>app/lib/magicMove/codeLayout.ts\<close> and \<open>animate.ts\<close>. \<open>page.tsx\<close> imports both files,
  and they are not among the source files; the records follow the data model of the
  specification.
\<close>

record LayoutToken =
  tokenText :: string
  tokenColor :: string
  tokenX :: real
  tokenY :: real
  tokenWidth :: real
  tokenHeight :: real

record Layout =
  tokens :: "LayoutToken list"
  lineCount :: nat
  gutterWidth :: real
  contentHeight :: real
  backgroundColor :: string

record AnimatedToken =
  animText :: string
  animColor :: string
  animX :: real
  animY :: real
  opacity :: real

text \<open>
  Modelled from the spec: the matching rule of \<open>animateLayouts\<close>, whose file is missing.
  A token is identified by its text and its occurrence index, the number of earlier
  tokens of its own layout with the same text; \<open>seen\<close> holds the texts of the
  earlier tokens.
\<close>

fun occurrenceKeys :: "string list \<Rightarrow> LayoutToken list \<Rightarrow> ((string \<times> nat) \<times> LayoutToken) list" where
  "occurrenceKeys seen [] = []"
| "occurrenceKeys seen (t # ts) =
     ((tokenText t, count_list seen (tokenText t)), t) # occurrenceKeys (tokenText t # seen) ts"

text \<open>Modelled from the spec: the linear interpolation of a coordinate, which the missing file computes.\<close>

definition lerp :: "real \<Rightarrow> real \<Rightarrow> real \<Rightarrow> real" where
  "lerp a b progress = a + (b - a) * progress"

text \<open>
  Modelled from the spec: the three ways in which the missing \<open>animate.ts\<close> renders a
  token. \<open>shown\<close> is a token of a layout in place with a given opacity. \<open>movedToken\<close>
  is a token matched in the destination: at the interpolated position with opacity
  1, in the colour of the destination token once the progress is positive.
\<close>

definition shown :: "real \<Rightarrow> LayoutToken \<Rightarrow> AnimatedToken" where
  "shown op t =
     \<lparr>animText = tokenText t, animColor = tokenColor t,
      animX = tokenX t, animY = tokenY t, opacity = op\<rparr>"

definition movedToken :: "LayoutToken \<Rightarrow> LayoutToken \<Rightarrow> real \<Rightarrow> AnimatedToken" where
  "movedToken a b progress =
     \<lparr>animText = tokenText a,
      animColor = (if 0 < progress then tokenColor b else tokenColor a),
      animX = lerp (tokenX a) (tokenX b) progress,
      animY = lerp (tokenY a) (tokenY b) progress,
      opacity = 1\<rparr>"

text \<open>
  Modelled from the spec: \<open>animateLayouts\<close>, whose file \<open>animate.ts\<close> is missing. For
  every token of the source layout: when the destination has a token with the same
  key, the moved token; otherwise the token in place with opacity \<open>1 - progress\<close>.
  Then every token of the destination whose key the source does not have, in place
  with opacity \<open>progress\<close>. The specification does not fix the order of the result;
  the statements below do not depend on it.
\<close>

definition animateLayouts :: "Layout \<Rightarrow> Layout \<Rightarrow> real \<Rightarrow> AnimatedToken list" where
  "animateLayouts fromLayout toLayout progress =
     (let fromKeyed = occurrenceKeys [] (tokens fromLayout);
          toKeyed = occurrenceKeys [] (tokens toLayout)
      in map (\<lambda>p. case map_of toKeyed (fst p) of
                     Some b \<Rightarrow> movedToken (snd p) b progress
                   | None \<Rightarrow> shown (1 - progress) (snd p))
             fromKeyed
         @ map (\<lambda>p. shown progress (snd p))
             (filter (\<lambda>p. map_of fromKeyed (fst p) = None) toKeyed))"

text \<open>
  The vocabulary of the statement: the tokens only the destination has, and the
  tokens only the source has.
\<close>

definition addedTokens :: "Layout \<Rightarrow> Layout \<Rightarrow> LayoutToken list" where
  "addedTokens fromLayout toLayout =
     map snd (filter (\<lambda>p. map_of (occurrenceKeys [] (tokens fromLayout)) (fst p) = None)
                (occurrenceKeys [] (tokens toLayout)))"

definition removedTokens :: "Layout \<Rightarrow> Layout \<Rightarrow> LayoutToken list" where
  "removedTokens fromLayout toLayout =
     map snd (filter (\<lambda>p. map_of (occurrenceKeys [] (tokens toLayout)) (fst p) = None)
                (occurrenceKeys [] (tokens fromLayout)))"

definition demoToken :: "string \<Rightarrow> real \<Rightarrow> real \<Rightarrow> LayoutToken" where
  "demoToken s px py =
     \<lparr>tokenText = s, tokenColor = ''#fff'', tokenX = px, tokenY = py,
      tokenWidth = 10, tokenHeight = 20\<rparr>"

definition demoFrom :: Layout where
  "demoFrom =
     \<lparr>tokens = [demoToken ''x'' 0 0, demoToken ''='' 10 0, demoToken ''x'' 20 0],
      lineCount = 1, gutterWidth = 0, contentHeight = 20, backgroundColor = ''#000''\<rparr>"

definition demoTo :: Layout where
  "demoTo =
     \<lparr>tokens = [demoToken ''let'' 0 0, demoToken ''x'' 40 0, demoToken ''='' 50 0],
      lineCount = 1, gutterWidth = 0, contentHeight = 20, backgroundColor = ''#000''\<rparr>"

section \<open>Vocabulary of the statements about the metadata\<close>

text \<open>
  A part of a brace group that sets \<open>lines\<close>, and a part whose key is one of the two
  keys the parser knows: the part is not blank and its trimmed key is the key.
\<close>

definition isLinesPart :: "string \<Rightarrow> bool" where
  "isLinesPart rawPart = (trim rawPart \<noteq> [] \<and> keyOf (trim rawPart) = ''lines'')"

definition isStartLinePart :: "string \<Rightarrow> bool" where
  "isStartLinePart rawPart = (trim rawPart \<noteq> [] \<and> keyOf (trim rawPart) = ''startLine'')"

definition isRecognisedPart :: "string \<Rightarrow> bool" where
  "isRecognisedPart rawPart = (isLinesPart rawPart \<or> isStartLinePart rawPart)"

text \<open>The result before any part is read.\<close>

definition defaultResult :: LineMetaParseResult where
  "defaultResult =
     \<lparr>meta = \<lparr>lines = False, startLine = 1\<rparr>,
      specified = \<lparr>linesSpecified = False, startLineSpecified = False\<rparr>\<rparr>"

text \<open>The text that \<open>parseMagicMove\<close> reads as the metadata of a fence: what follows the first word.\<close>

definition ownMetaText :: "Fence \<Rightarrow> string" where
  "ownMetaText f = snd (stripFirstWord (info f))"

text \<open>The entries of a brace group as they are written: with the separator between them.\<close>

fun joinWith :: "char \<Rightarrow> string list \<Rightarrow> string" where
  "joinWith sep [] = []"
| "joinWith sep [e] = e"
| "joinWith sep (e # es) = e @ sep # joinWith sep es"

section \<open>Properties of the timeline\<close>

text \<open>
  C3. For every step count \<open>n\<close> and transition duration, the total duration of the
  timeline is \<open>startHold + (n - 1) * transitionMs + (n - 1) * betweenHold + endHold\<close>
  when \<open>n \<ge> 2\<close> and \<open>startHold + endHold\<close> when \<open>n \<le> 1\<close>, where the holds are the
  timeline's own fields, which are 250, 120 and 250; with a transition of 800 ms
  three steps last 2340 ms.
\<close>

theorem timeline_totalMs:
  "totalMs (timeline n transitionMs) =
     (if 2 \<le> n
      then startHold (timeline n transitionMs) + (real n - 1) * transitionMs
           + (real n - 1) * betweenHold (timeline n transitionMs)
           + endHold (timeline n transitionMs)
      else startHold (timeline n transitionMs) + endHold (timeline n transitionMs))
   \<and> startHold (timeline n transitionMs) = 250
   \<and> betweenHold (timeline n transitionMs) = 120
   \<and> endHold (timeline n transitionMs) = 250
   \<and> totalMs (timeline 3 800) = 2340"
  by (simp add: timeline_def Let_def)

theorem timeline_totalMs_witness:
  "totalMs (timeline 1 800) = 500 \<and> totalMs (timeline 2 800) = 1420
   \<and> totalMs (timeline 3 800) = 2340"
  using timeline_totalMs [of 1 800] timeline_totalMs [of 2 800]
  by simp

text \<open>
  C8. For a non-negative transition duration (the holds are the non-negative constants
  of the source), the total duration never decreases when a step is added.
\<close>

theorem timeline_totalMs_mono:
  "0 \<le> transitionMs \<Longrightarrow>
   totalMs (timeline n transitionMs) \<le> totalMs (timeline (Suc n) transitionMs)"
  by (simp add: timeline_def Let_def algebra_simps)

theorem timeline_totalMs_mono_witness:
  "(0::real) \<le> 800 \<and> totalMs (timeline 2 800) \<le> totalMs (timeline (Suc 2) 800)"
  using timeline_totalMs_mono [of 800 2]
  by simp

section \<open>Properties of the time-to-frame mapping\<close>

text \<open>While the time left passes both tests of a pair, the loop moves on to the next pair.\<close>

lemma pairLoop_skip:
  "i + k \<le> length sl - 1 \<Longrightarrow>
   (\<forall>j<k. tr < t - real j * (tr + bh) \<and> bh < t - real j * (tr + bh) - tr) \<Longrightarrow>
   pairLoop sl tr bh i t = pairLoop sl tr bh (i + k) (t - real k * (tr + bh))"
proof (induction k arbitrary: i t)
  case 0
  then show ?case by simp
next
  case (Suc k)
  from Suc.prems(2) have first: "tr < t" "bh < t - tr" by force+
  have rest: "\<forall>j<k. tr < (t - tr - bh) - real j * (tr + bh)
                   \<and> bh < (t - tr - bh) - real j * (tr + bh) - tr"
  proof (intro allI impI)
    fix j assume "j < k"
    then have "Suc j < Suc k" by simp
    with Suc.prems(2)
    have "tr < t - real (Suc j) * (tr + bh) \<and> bh < t - real (Suc j) * (tr + bh) - tr"
      by blast
    then show "tr < (t - tr - bh) - real j * (tr + bh)
        \<and> bh < (t - tr - bh) - real j * (tr + bh) - tr"
      by (simp add: algebra_simps)
  qed
  from Suc.prems(1) have lt: "i < length sl - 1" and le: "(i + 1) + k \<le> length sl - 1"
    by simp_all
  have "pairLoop sl tr bh i t = pairLoop sl tr bh (i + 1) (t - tr - bh)"
    using lt first by (subst pairLoop.simps) (simp add: Let_def)
  also have "\<dots> = pairLoop sl tr bh (i + 1 + k) ((t - tr - bh) - real k * (tr + bh))"
    by (rule Suc.IH [OF le rest])
  also have "\<dots> = pairLoop sl tr bh (i + Suc k) (t - real (Suc k) * (tr + bh))"
    by (simp add: algebra_simps)
  finally show ?case .
qed

lemma frameAt_unfold:
  assumes "2 \<le> length sl"
  shows "frameAt sl tline tr ms =
     (if clampedMs tline ms < startHold tline then holdFrame (sl ! 0)
      else pairLoop sl tr (betweenHold tline) 0 (clampedMs tline ms - startHold tline))"
proof -
  from assms have "length sl \<noteq> 1" by auto
  then show ?thesis
    unfolding frameAt_def clampedMs_def Let_def by simp
qed

lemma frameAt_loop:
  assumes "2 \<le> length sl"
    and "startHold tline \<le> clampedMs tline ms"
    and "i \<le> length sl - 1" and "pairsPassed tline tr ms i"
  shows "frameAt sl tline tr ms = pairLoop sl tr (betweenHold tline) i (remaining tline tr ms i)"
proof -
  have "pairLoop sl tr (betweenHold tline) 0 (clampedMs tline ms - startHold tline)
        = pairLoop sl tr (betweenHold tline) (0 + i)
            (clampedMs tline ms - startHold tline - real i * (tr + betweenHold tline))"
    using assms(3,4) by (intro pairLoop_skip) (simp_all add: pairsPassed_def remaining_def)
  moreover have "\<not> clampedMs tline ms < startHold tline"
    using assms(2) by simp
  ultimately show ?thesis
    by (simp add: frameAt_unfold [OF assms(1)] remaining_def)
qed

lemma remaining_nonneg:
  assumes "startHold tline \<le> clampedMs tline ms" "pairsPassed tline tr ms i"
  shows "0 \<le> remaining tline tr ms i"
proof (cases i)
  case 0
  with assms show ?thesis by (simp add: remaining_def)
next
  case (Suc k)
  with assms(2) have "tr < remaining tline tr ms k"
     "betweenHold tline < remaining tline tr ms k - tr"
    by (simp_all add: pairsPassed_def)
  then show ?thesis using Suc by (simp add: remaining_def algebra_simps)
qed

text \<open>
  The branch that \<open>frameAt\<close> takes, by the time left at the pair \<open>i\<close> that the loop has
  reached.
\<close>

lemma frameAt_cases:
  assumes "2 \<le> length sl"
  shows
    "clampedMs tline ms = max 0 (min (totalMs tline) ms)
     \<and> (clampedMs tline ms < startHold tline
          \<longrightarrow> frameAt sl tline transitionMs ms = holdFrame (sl ! 0))
     \<and> (\<forall>i. startHold tline \<le> clampedMs tline ms \<and> i + 1 < length sl
              \<and> pairsPassed tline transitionMs ms i
              \<and> remaining tline transitionMs ms i \<le> transitionMs
          \<longrightarrow> frameAt sl tline transitionMs ms =
                transitionFrame (sl ! i) (sl ! (i + 1))
                  (if transitionMs = 0 then 1
                   else remaining tline transitionMs ms i / transitionMs))
     \<and> (\<forall>i. startHold tline \<le> clampedMs tline ms \<and> i + 1 < length sl
              \<and> pairsPassed tline transitionMs ms i
              \<and> transitionMs < remaining tline transitionMs ms i
              \<and> remaining tline transitionMs ms i - transitionMs \<le> betweenHold tline
          \<longrightarrow> frameAt sl tline transitionMs ms = holdFrame (sl ! (i + 1)))
     \<and> (startHold tline \<le> clampedMs tline ms
          \<and> pairsPassed tline transitionMs ms (length sl - 1)
          \<longrightarrow> frameAt sl tline transitionMs ms = holdFrame (sl ! (length sl - 1)))"
proof (intro conjI allI impI)
  show "clampedMs tline ms = max 0 (min (totalMs tline) ms)"
    by (simp add: clampedMs_def)
next
  assume "clampedMs tline ms < startHold tline"
  then show "frameAt sl tline transitionMs ms = holdFrame (sl ! 0)"
    by (simp add: frameAt_unfold [OF assms])
next
  fix i
  assume h: "startHold tline \<le> clampedMs tline ms \<and> i + 1 < length sl
      \<and> pairsPassed tline transitionMs ms i
      \<and> remaining tline transitionMs ms i \<le> transitionMs"
  then have i: "i \<le> length sl - 1" "i < length sl - 1" by auto
  from h have "0 \<le> remaining tline transitionMs ms i" by (simp add: remaining_nonneg)
  with h have tr: "transitionMs \<le> 0 \<longleftrightarrow> transitionMs = 0" by auto
  have "frameAt sl tline transitionMs ms =
      pairLoop sl transitionMs (betweenHold tline) i (remaining tline transitionMs ms i)"
    using h i(1) by (intro frameAt_loop [OF assms]) simp_all
  also have "\<dots> = transitionFrame (sl ! i) (sl ! (i + 1))
          (if transitionMs = 0 then 1 else remaining tline transitionMs ms i / transitionMs)"
    using h i(2) tr by (subst pairLoop.simps) (simp add: Let_def)
  finally show "frameAt sl tline transitionMs ms =
      transitionFrame (sl ! i) (sl ! (i + 1))
        (if transitionMs = 0 then 1 else remaining tline transitionMs ms i / transitionMs)" .
next
  fix i
  assume h: "startHold tline \<le> clampedMs tline ms \<and> i + 1 < length sl
      \<and> pairsPassed tline transitionMs ms i
      \<and> transitionMs < remaining tline transitionMs ms i
      \<and> remaining tline transitionMs ms i - transitionMs \<le> betweenHold tline"
  then have i: "i \<le> length sl - 1" "i < length sl - 1" by auto
  have "frameAt sl tline transitionMs ms =
      pairLoop sl transitionMs (betweenHold tline) i (remaining tline transitionMs ms i)"
    using h i(1) by (intro frameAt_loop [OF assms]) simp_all
  also have "\<dots> = holdFrame (sl ! (i + 1))"
    using h i(2) by (subst pairLoop.simps) (simp add: Let_def)
  finally show "frameAt sl tline transitionMs ms = holdFrame (sl ! (i + 1))" .
next
  assume h: "startHold tline \<le> clampedMs tline ms
      \<and> pairsPassed tline transitionMs ms (length sl - 1)"
  have "frameAt sl tline transitionMs ms =
      pairLoop sl transitionMs (betweenHold tline) (length sl - 1)
        (remaining tline transitionMs ms (length sl - 1))"
    using h by (intro frameAt_loop [OF assms]) simp_all
  also have "\<dots> = holdFrame (sl ! (length sl - 1))"
    by (subst pairLoop.simps) simp
  finally show "frameAt sl tline transitionMs ms = holdFrame (sl ! (length sl - 1))" .
qed

text \<open>
  C1. For a list of at least two step layouts and every time \<open>ms\<close>, with the time
  clamped to the interval from 0 to \<open>totalMs\<close>. While the clamped time is below
  \<open>startHold\<close>, the frame drawn is a hold of step 0: the layout of step 0 with its own
  line numbering, start line and line count, and no animated tokens. Otherwise, with
  \<open>remaining i\<close> the clamped time less \<open>startHold\<close> and less \<open>i\<close> times the transition and
  the hold between steps, and with the loop past the pairs before \<open>i\<close>: when
  \<open>remaining i \<le> transitionMs\<close> the frame is the transition from step \<open>i\<close> to step
  \<open>i + 1\<close>, whose tokens are those of \<open>animateLayouts\<close> from the layout of step \<open>i\<close> to the
  layout of step \<open>i + 1\<close> at the progress \<open>remaining i / transitionMs\<close> (1 when
  \<open>transitionMs\<close> is 0), drawn with the line count and start line of step \<open>i + 1\<close> and
  with line numbers when either step has them; when the time left after the transition
  is at most \<open>betweenHold\<close> the frame is a hold of step \<open>i + 1\<close>; and past all the pairs it
  is a hold of the last step.
\<close>

theorem frameAt_time_to_state:
  assumes "2 \<le> length sl"
  shows
    "clampedMs tline ms = max 0 (min (totalMs tline) ms)
     \<and> (clampedMs tline ms < startHold tline
          \<longrightarrow> frameAt sl tline transitionMs ms =
                \<lparr>drawLayout = layout (sl ! 0), drawTokens = None,
                 drawShowLineNumbers = showLineNumbers (sl ! 0),
                 drawStartLine = stepStartLine (sl ! 0),
                 drawLineCount = tokenLineCount (sl ! 0)\<rparr>)
     \<and> (\<forall>i. startHold tline \<le> clampedMs tline ms \<and> i + 1 < length sl
              \<and> pairsPassed tline transitionMs ms i
              \<and> remaining tline transitionMs ms i \<le> transitionMs
          \<longrightarrow> frameAt sl tline transitionMs ms =
                \<lparr>drawLayout = layout (sl ! (i + 1)),
                 drawTokens =
                   Some (layout (sl ! i), layout (sl ! (i + 1)),
                         if transitionMs = 0 then 1
                         else remaining tline transitionMs ms i / transitionMs),
                 drawShowLineNumbers = (showLineNumbers (sl ! i) \<or> showLineNumbers (sl ! (i + 1))),
                 drawStartLine = stepStartLine (sl ! (i + 1)),
                 drawLineCount = tokenLineCount (sl ! (i + 1))\<rparr>)
     \<and> (\<forall>i. startHold tline \<le> clampedMs tline ms \<and> i + 1 < length sl
              \<and> pairsPassed tline transitionMs ms i
              \<and> transitionMs < remaining tline transitionMs ms i
              \<and> remaining tline transitionMs ms i - transitionMs \<le> betweenHold tline
          \<longrightarrow> frameAt sl tline transitionMs ms =
                \<lparr>drawLayout = layout (sl ! (i + 1)), drawTokens = None,
                 drawShowLineNumbers = showLineNumbers (sl ! (i + 1)),
                 drawStartLine = stepStartLine (sl ! (i + 1)),
                 drawLineCount = tokenLineCount (sl ! (i + 1))\<rparr>)
     \<and> (startHold tline \<le> clampedMs tline ms
          \<and> pairsPassed tline transitionMs ms (length sl - 1)
          \<longrightarrow> frameAt sl tline transitionMs ms =
                \<lparr>drawLayout = layout (sl ! (length sl - 1)), drawTokens = None,
                 drawShowLineNumbers = showLineNumbers (sl ! (length sl - 1)),
                 drawStartLine = stepStartLine (sl ! (length sl - 1)),
                 drawLineCount = tokenLineCount (sl ! (length sl - 1))\<rparr>)"
  using frameAt_cases [OF assms, of tline ms transitionMs]
  unfolding holdFrame_def transitionFrame_def .

lemma demo_timeline_simps:
  "2 \<le> length demoLayouts" "length demoLayouts = 3"
  "startHold (timeline 3 800) = 250" "betweenHold (timeline 3 800) = 120"
  "totalMs (timeline 3 800) = 2340"
  by (simp_all add: demoLayouts_def timeline_def Let_def)

theorem frameAt_time_to_state_witness:
  "frameAt demoLayouts (timeline 3 800) 800 100 =
     \<lparr>drawLayout = 0, drawTokens = None, drawShowLineNumbers = False,
      drawStartLine = 1, drawLineCount = 3\<rparr>
   \<and> frameAt demoLayouts (timeline 3 800) 800 650 =
     \<lparr>drawLayout = 1, drawTokens = Some (0, 1, 1 / 2), drawShowLineNumbers = True,
      drawStartLine = 1, drawLineCount = 4\<rparr>
   \<and> frameAt demoLayouts (timeline 3 800) 800 1100 =
     \<lparr>drawLayout = 1, drawTokens = None, drawShowLineNumbers = True,
      drawStartLine = 1, drawLineCount = 4\<rparr>
   \<and> frameAt demoLayouts (timeline 3 800) 800 1200 =
     \<lparr>drawLayout = 2, drawTokens = Some (1, 2, 3 / 80), drawShowLineNumbers = True,
      drawStartLine = 7, drawLineCount = 5\<rparr>
   \<and> frameAt demoLayouts (timeline 3 800) 800 2300 =
     \<lparr>drawLayout = 2, drawTokens = None, drawShowLineNumbers = False,
      drawStartLine = 7, drawLineCount = 5\<rparr>
   \<and> frameAt demoLayouts (timeline 3 800) 800 9999 =
     \<lparr>drawLayout = 2, drawTokens = None, drawShowLineNumbers = False,
      drawStartLine = 7, drawLineCount = 5\<rparr>
   \<and> renderAt demoEnv 1200 =
     Some \<lparr>drawLayout = 2, drawTokens = Some (1, 2, 3 / 80), drawShowLineNumbers = True,
           drawStartLine = 7, drawLineCount = 5\<rparr>"
proof -
  note t = frameAt_time_to_state [OF demo_timeline_simps(1), of "timeline 3 800" _ 800]
  have c: "clampedMs (timeline 3 800) 100 = 100" "clampedMs (timeline 3 800) 650 = 650"
    "clampedMs (timeline 3 800) 1200 = 1200"
    "clampedMs (timeline 3 800) 1100 = 1100" "clampedMs (timeline 3 800) 2300 = 2300"
    "clampedMs (timeline 3 800) 9999 = 2340"
    by (simp_all add: clampedMs_def demo_timeline_simps)
  have two: "\<And>P. (\<forall>j<2::nat. P j) \<longleftrightarrow> P 0 \<and> P 1"
    by (auto simp: less_2_cases_iff)
  have n: "demoLayouts ! 0 = \<lparr>layout = 0, tokenLineCount = 3, stepStartLine = 1, showLineNumbers = False\<rparr>"
    "demoLayouts ! 1 = \<lparr>layout = 1, tokenLineCount = 4, stepStartLine = 1, showLineNumbers = True\<rparr>"
    "demoLayouts ! 2 = \<lparr>layout = 2, tokenLineCount = 5, stepStartLine = 7, showLineNumbers = False\<rparr>"
    "demoLayouts ! Suc 0 = \<lparr>layout = 1, tokenLineCount = 4, stepStartLine = 1, showLineNumbers = True\<rparr>"
    "demoLayouts ! Suc (Suc 0) = \<lparr>layout = 2, tokenLineCount = 5, stepStartLine = 7, showLineNumbers = False\<rparr>"
    by (simp_all add: demoLayouts_def)
  have a: "frameAt demoLayouts (timeline 3 800) 800 100 =
     \<lparr>drawLayout = 0, drawTokens = None, drawShowLineNumbers = False,
      drawStartLine = 1, drawLineCount = 3\<rparr>"
    using t [of 100] by (simp add: c n demo_timeline_simps)
  have h: "frameAt demoLayouts (timeline 3 800) 800 650 =
     \<lparr>drawLayout = 1, drawTokens = Some (0, 1, 1 / 2), drawShowLineNumbers = True,
      drawStartLine = 1, drawLineCount = 4\<rparr>"
    using t [of 650, THEN conjunct2, THEN conjunct2, THEN conjunct1, rule_format, of 0]
    by (simp add: c n demo_timeline_simps pairsPassed_def remaining_def)
  have b: "frameAt demoLayouts (timeline 3 800) 800 1200 =
     \<lparr>drawLayout = 2, drawTokens = Some (1, 2, 3 / 80), drawShowLineNumbers = True,
      drawStartLine = 7, drawLineCount = 5\<rparr>"
    using t [of 1200, THEN conjunct2, THEN conjunct2, THEN conjunct1, rule_format, of 1]
    by (simp add: c n demo_timeline_simps pairsPassed_def remaining_def numeral_2_eq_2)
  have d: "frameAt demoLayouts (timeline 3 800) 800 1100 =
     \<lparr>drawLayout = 1, drawTokens = None, drawShowLineNumbers = True,
      drawStartLine = 1, drawLineCount = 4\<rparr>"
    using t [of 1100, THEN conjunct2, THEN conjunct2, THEN conjunct2, THEN conjunct1,
        rule_format, of 0]
    by (simp add: c n demo_timeline_simps pairsPassed_def remaining_def)
  have e: "frameAt demoLayouts (timeline 3 800) 800 2300 =
     \<lparr>drawLayout = 2, drawTokens = None, drawShowLineNumbers = False,
      drawStartLine = 7, drawLineCount = 5\<rparr>"
    using t [of 2300] by (simp add: c n demo_timeline_simps pairsPassed_def remaining_def two)
  have f: "frameAt demoLayouts (timeline 3 800) 800 9999 =
     \<lparr>drawLayout = 2, drawTokens = None, drawShowLineNumbers = False,
      drawStartLine = 7, drawLineCount = 5\<rparr>"
    using t [of 9999] by (simp add: c n demo_timeline_simps pairsPassed_def remaining_def two)
  have g: "renderAt demoEnv 1200 = Some (frameAt demoLayouts (timeline 3 800) 800 1200)"
    by (simp add: renderAt_def demoEnv_def demo_timeline_simps)
  from a h b d e f g show ?thesis by simp
qed
section \<open>Properties of the string operations\<close>

lemma splitOn_no_sep: "sep \<notin> set e \<Longrightarrow> splitOn sep e = [e]"
  by (induction e) auto

lemma splitOn_sep: "sep \<notin> set e \<Longrightarrow> splitOn sep (e @ sep # rest) = e # splitOn sep rest"
  by (induction e) auto

lemma splitOn_joinWith:
  "es \<noteq> [] \<Longrightarrow> \<forall>e\<in>set es. sep \<notin> set e \<Longrightarrow> splitOn sep (joinWith sep es) = es"
  by (induction sep es rule: joinWith.induct) (simp_all add: splitOn_no_sep splitOn_sep)

lemma whiteSpace_not_brace:
  "isWhiteSpace c \<Longrightarrow> c \<noteq> CHR ''{'' \<and> c \<noteq> CHR ''}''"
  by (auto simp: isWhiteSpace_def)

text \<open>What \<open>trim\<close> removes is white space, before and after what it returns.\<close>

lemma trim_suffix:
  "\<exists>b. dropWhile isWhiteSpace t = trim t @ b \<and> (\<forall>c\<in>set b. isWhiteSpace c)"
proof -
  define u where "u = dropWhile isWhiteSpace t"
  have "u = rev (dropWhile isWhiteSpace (rev u)) @ rev (takeWhile isWhiteSpace (rev u))"
    by (metis rev_append rev_rev_ident takeWhile_dropWhile_id)
  moreover have "\<forall>c\<in>set (rev (takeWhile isWhiteSpace (rev u))). isWhiteSpace c"
    by (auto dest: set_takeWhileD)
  ultimately show ?thesis unfolding trim_def u_def by blast
qed

lemma trim_decomp:
  "\<exists>a b. t = a @ trim t @ b \<and> (\<forall>c\<in>set a. isWhiteSpace c) \<and> (\<forall>c\<in>set b. isWhiteSpace c)"
proof -
  from trim_suffix [of t] obtain b where
    b: "dropWhile isWhiteSpace t = trim t @ b" "\<forall>c\<in>set b. isWhiteSpace c" by blast
  have "t = takeWhile isWhiteSpace t @ dropWhile isWhiteSpace t" by simp
  with b(1) have "t = takeWhile isWhiteSpace t @ trim t @ b" by simp
  moreover have "\<forall>c\<in>set (takeWhile isWhiteSpace t). isWhiteSpace c"
    by (auto dest: set_takeWhileD)
  ultimately show ?thesis using b(2) by blast
qed

lemma set_trim: "set (trim t) \<subseteq> set t"
proof -
  from trim_decomp [of t] obtain a b where "t = a @ trim t @ b" by blast
  then have "set t = set a \<union> set (trim t) \<union> set b" by (metis set_append Un_assoc)
  then show ?thesis by blast
qed

lemma trim_dropWhile: "trim (dropWhile isWhiteSpace t) = trim t"
  by (simp add: trim_def)

lemma trim_head: "trim t \<noteq> [] \<Longrightarrow> \<not> isWhiteSpace (hd (trim t))"
proof -
  assume n: "trim t \<noteq> []"
  from trim_suffix [of t] obtain b where b: "dropWhile isWhiteSpace t = trim t @ b" by blast
  with n have "dropWhile isWhiteSpace t \<noteq> []" by simp
  then have "\<not> isWhiteSpace (hd (dropWhile isWhiteSpace t))" by (rule hd_dropWhile)
  with b n show ?thesis by simp
qed

section \<open>Properties of the brace groups\<close>

lemma braceGroups_no_close: "CHR ''}'' \<notin> set t \<Longrightarrow> braceGroups t = []"
  by (induction t) (simp_all add: dropWhile_eq_Nil_conv)

lemma braceGroups_no_open: "CHR ''{'' \<notin> set t \<Longrightarrow> braceGroups t = []"
  by (induction t) auto

lemma braceGroups_skip: "CHR ''{'' \<notin> set pre \<Longrightarrow> braceGroups (pre @ t) = braceGroups t"
  by (induction pre) auto

lemma braceGroups_group:
  assumes "CHR ''}'' \<notin> set grp"
  shows "braceGroups (CHR ''{'' # grp @ CHR ''}'' # post) = grp # braceGroups post"
proof -
  let ?P = "\<lambda>x. x \<noteq> CHR ''}''"
  from assms have n: "\<forall>x\<in>set grp. ?P x" by auto
  from n have d: "dropWhile ?P (grp @ CHR ''}'' # post) = CHR ''}'' # post"
    by (simp add: dropWhile_append3)
  from n have t: "takeWhile ?P (grp @ CHR ''}'' # post) = grp"
    by (simp add: takeWhile_tail)
  have "braceGroups (CHR ''{'' # grp @ CHR ''}'' # post) =
      takeWhile ?P (grp @ CHR ''}'' # post)
      # braceGroups (tl (dropWhile ?P (grp @ CHR ''}'' # post)))"
    using d by (subst braceGroups.simps) (simp only: if_True simp_thms list.distinct)
  then show ?thesis by (simp only: d t list.sel)
qed

lemma braceGroups_tail:
  "CHR ''}'' \<notin> set ws \<Longrightarrow> braceGroups (t @ ws) = braceGroups t"
proof (induction t rule: braceGroups.induct)
  case 1
  then show ?case by (simp add: braceGroups_no_close)
next
  case (2 c cs)
  let ?P = "\<lambda>x. x \<noteq> CHR ''}''"
  show ?case
  proof (cases "c = CHR ''{'' \<and> dropWhile ?P cs \<noteq> []")
    case True
    then have m: "CHR ''}'' \<in> set cs" by (auto simp: dropWhile_eq_Nil_conv)
    then have d: "dropWhile ?P (cs @ ws) = dropWhile ?P cs @ ws"
      by (intro dropWhile_append1) auto
    from m have t: "takeWhile ?P (cs @ ws) = takeWhile ?P cs"
      by (intro takeWhile_append1) auto
    from True have ih: "braceGroups (tl (dropWhile ?P cs) @ ws)
        = braceGroups (tl (dropWhile ?P cs))"
      using 2 by blast
    from True have tl: "tl (dropWhile ?P cs @ ws) = tl (dropWhile ?P cs) @ ws"
      by (cases "dropWhile ?P cs") simp_all
    from True have l: "braceGroups (c # cs) =
        takeWhile ?P cs # braceGroups (tl (dropWhile ?P cs))"
      by (subst braceGroups.simps) (simp only: if_True simp_thms)
    from True d have "c = CHR ''{'' \<and> dropWhile ?P (cs @ ws) \<noteq> []"
      by (cases "dropWhile ?P cs") simp_all
    then have r: "braceGroups (c # (cs @ ws)) =
        takeWhile ?P (cs @ ws) # braceGroups (tl (dropWhile ?P (cs @ ws)))"
      by (subst braceGroups.simps) (simp only: if_True simp_thms)
    show ?thesis by (simp only: append_Cons l r d t tl ih)
  next
    case False
    then have ih: "braceGroups (cs @ ws) = braceGroups cs" using 2 by blast
    from False have l: "braceGroups (c # cs) = braceGroups cs"
      by (subst braceGroups.simps) (simp only: if_False)
    from False 2(3) have "\<not> (c = CHR ''{'' \<and> dropWhile ?P (cs @ ws) \<noteq> [])"
      by (auto simp: dropWhile_eq_Nil_conv)
    then have r: "braceGroups (c # (cs @ ws)) = braceGroups (cs @ ws)"
      by (subst braceGroups.simps) (simp only: if_False)
    show ?thesis by (simp only: append_Cons l r ih)
  qed
qed

lemma braceGroups_trim: "braceGroups (trim t) = braceGroups t"
proof -
  from trim_decomp [of t] obtain a b where
    d: "t = a @ trim t @ b" "\<forall>c\<in>set a. isWhiteSpace c" "\<forall>c\<in>set b. isWhiteSpace c"
    by blast
  from d(2) have a: "CHR ''{'' \<notin> set a" by (auto dest: whiteSpace_not_brace)
  from d(3) have b: "CHR ''}'' \<notin> set b" by (auto dest: whiteSpace_not_brace)
  have "braceGroups (a @ trim t @ b) = braceGroups (trim t @ b)"
    using a by (rule braceGroups_skip)
  also have "\<dots> = braceGroups (trim t)" using b by (rule braceGroups_tail)
  finally show ?thesis using d(1) by simp
qed

text \<open>The parts of a string that starts with a brace group, and of one without a group.\<close>

lemma metaParts_group:
  assumes "CHR ''{'' \<notin> set pre" and "entries \<noteq> []"
    and "\<forall>e\<in>set entries. CHR ''}'' \<notin> set e \<and> CHR '','' \<notin> set e"
  shows "metaParts (pre @ ''{'' @ joinWith (CHR '','') entries @ ''}'' @ post)
     = entries @ metaParts post"
proof -
  have j: "CHR ''}'' \<notin> set (joinWith (CHR '','') entries)"
    using assms(3) by (induction "CHR '',''" entries rule: joinWith.induct) auto
  have "braceGroups (pre @ ''{'' @ joinWith (CHR '','') entries @ ''}'' @ post)
      = braceGroups (CHR ''{'' # joinWith (CHR '','') entries @ CHR ''}'' # post)"
    using braceGroups_skip [OF assms(1)] by simp
  also have "\<dots> = joinWith (CHR '','') entries # braceGroups post"
    using j by (rule braceGroups_group)
  finally show ?thesis
    using assms(2,3) by (simp add: metaParts_def splitOn_joinWith)
qed

lemma metaParts_none:
  "CHR ''{'' \<notin> set t \<or> CHR ''}'' \<notin> set t \<Longrightarrow> metaParts t = []"
  by (auto simp: metaParts_def braceGroups_no_open braceGroups_no_close)

lemma metaParts_trim: "metaParts (trim t) = metaParts t"
  by (simp add: metaParts_def braceGroups_trim)

section \<open>Properties of the first word\<close>

lemma stripFirstWord_word:
  assumes "w \<noteq> []" and "\<forall>c\<in>set w. \<not> isWhiteSpace c"
  shows "stripFirstWord w = (w, [])"
proof -
  from assms(2) have t: "takeWhile (\<lambda>c. \<not> isWhiteSpace c) w = w"
    by (simp add: takeWhile_eq_all_conv)
  from assms(2) have d: "dropWhile (\<lambda>c. \<not> isWhiteSpace c) w = []"
    by (simp add: dropWhile_eq_Nil_conv)
  show ?thesis unfolding stripFirstWord_def Let_def t d using assms(1) by simp
qed

lemma stripFirstWord_rest:
  assumes "w \<noteq> []" and "\<forall>c\<in>set w. \<not> isWhiteSpace c"
    and "ws \<noteq> []" and "\<forall>c\<in>set ws. isWhiteSpace c"
    and "\<not> list_ex isLineTerminator rest"
  shows "stripFirstWord (w @ ws @ rest) = (w, trim rest)"
proof -
  from assms(3) obtain x xs where x: "ws = x # xs" by (cases ws) auto
  with assms(4) have wx: "isWhiteSpace x" by simp
  from assms(2) wx have t: "takeWhile (\<lambda>c. \<not> isWhiteSpace c) (w @ ws @ rest) = w"
    unfolding x by (simp add: takeWhile_tail)
  from assms(2) wx have d: "dropWhile (\<lambda>c. \<not> isWhiteSpace c) (w @ ws @ rest) = ws @ rest"
    unfolding x by (simp add: dropWhile_append3)
  from assms(4) have e: "dropWhile isWhiteSpace (ws @ rest) = dropWhile isWhiteSpace rest"
    by simp
  have "set (dropWhile isWhiteSpace rest) \<subseteq> set rest" by (rule set_dropWhileD [THEN subsetI])
  with assms(5) have l: "\<not> list_ex isLineTerminator (dropWhile isWhiteSpace rest)"
    by (auto simp: list_ex_iff)
  from assms(1,3) l show ?thesis
    unfolding stripFirstWord_def Let_def t d e by (simp add: trim_dropWhile)
qed

text \<open>
  The first word of an info string as \<open>parseFencedBlocks\<close> returns it: trimmed and
  without a line terminator.
\<close>

lemma stripFirstWord_trimmed:
  assumes "t \<noteq> []" and "\<not> isWhiteSpace (hd t)" and "\<not> list_ex isLineTerminator t"
  shows "fst (stripFirstWord t) = takeWhile (\<lambda>c. \<not> isWhiteSpace c) t"
    and "takeWhile (\<lambda>c. \<not> isWhiteSpace c) t \<noteq> []"
proof -
  from assms(1,2) show n: "takeWhile (\<lambda>c. \<not> isWhiteSpace c) t \<noteq> []"
    by (cases t) auto
  have "set (dropWhile isWhiteSpace (dropWhile (\<lambda>c. \<not> isWhiteSpace c) t)) \<subseteq> set t"
    by (meson set_dropWhileD subsetI)
  with assms(3)
  have "\<not> list_ex isLineTerminator (dropWhile isWhiteSpace (dropWhile (\<lambda>c. \<not> isWhiteSpace c) t))"
    by (auto simp: list_ex_iff)
  with n show "fst (stripFirstWord t) = takeWhile (\<lambda>c. \<not> isWhiteSpace c) t"
    by (simp add: stripFirstWord_def Let_def)
qed

lemma openFence_info:
  "openFence line = Some (ticks, infoText) \<Longrightarrow> \<not> list_ex isLineTerminator infoText"
  by (auto simp: openFence_def Let_def split: if_splits)

lemma parseFencedLines_info:
  "f \<in> set (parseFencedLines ls) \<Longrightarrow>
   \<not> list_ex isLineTerminator (info f) \<and> (info f = [] \<or> \<not> isWhiteSpace (hd (info f)))"
proof (induction ls rule: parseFencedLines.induct)
  case 1
  then show ?case by simp
next
  case (2 line ls)
  show ?case
  proof (cases "openFence line")
    case None
    with 2 show ?thesis by simp
  next
    case (Some p)
    obtain ticks infoText where p: "p = (ticks, infoText)" by (cases p)
    obtain bodyLines rest isClosed where
      c: "collectBody ticks ls = (bodyLines, rest, isClosed)" by (cases "collectBody ticks ls")
    from Some p have l: "\<not> list_ex isLineTerminator infoText" by (auto dest: openFence_info)
    have h: "\<not> list_ex isLineTerminator (trim infoText)
        \<and> (trim infoText = [] \<or> \<not> isWhiteSpace (hd (trim infoText)))"
      using l set_trim [of infoText] trim_head [of infoText] by (auto simp: list_ex_iff)
    from 2(3) Some p c
    have "f = \<lparr>fence = ticks, info = trim infoText, body = joinLines bodyLines\<rparr>
        \<or> (isClosed \<and> f \<in> set (parseFencedLines rest))"
      by (auto split: if_splits)
    then show ?thesis
    proof
      assume "f = \<lparr>fence = ticks, info = trim infoText, body = joinLines bodyLines\<rparr>"
      with h show ?thesis by simp
    next
      assume "isClosed \<and> f \<in> set (parseFencedLines rest)"
      with 2(2) [OF Some p [symmetric] c [symmetric]] show ?thesis
        by simp
    qed
  qed
qed

section \<open>Properties of the metadata parser\<close>

lemma parseLineMetaDetailed_fold:
  "parseLineMetaDetailed N t = foldl (parsePart N) defaultResult (metaParts t)"
  by (simp add: parseLineMetaDetailed_def defaultResult_def metaParts_def Let_def)

text \<open>What one part does: nothing, or it sets \<open>lines\<close>, or it sets \<open>startLine\<close> to a floor that is at least 1.\<close>

lemma parsePart_cases:
  "parsePart N r rawPart = r
   \<or> (isLinesPart rawPart
       \<and> parsePart N r rawPart =
           r\<lparr>meta := (meta r)\<lparr>lines := (valueOf (trim rawPart) = Some ''true'')\<rparr>,
             specified := (specified r)\<lparr>linesSpecified := True\<rparr>\<rparr>)
   \<or> (\<exists>v n. isStartLinePart rawPart
       \<and> valueOf (trim rawPart) = Some v \<and> N v = JsFinite n \<and> 1 \<le> n
       \<and> parsePart N r rawPart =
           r\<lparr>meta := (meta r)\<lparr>startLine := \<lfloor>n\<rfloor>\<rparr>,
             specified := (specified r)\<lparr>startLineSpecified := True\<rparr>\<rparr>)"
  by (auto simp: parsePart_def isLinesPart_def isStartLinePart_def Let_def
      split: option.splits JsNumber.splits)

lemma parsePart_lines:
  "isLinesPart rawPart \<Longrightarrow>
   parsePart N r rawPart =
     r\<lparr>meta := (meta r)\<lparr>lines := (valueOf (trim rawPart) = Some ''true'')\<rparr>,
       specified := (specified r)\<lparr>linesSpecified := True\<rparr>\<rparr>"
  by (simp add: parsePart_def isLinesPart_def Let_def)

lemma parsePart_not_lines:
  assumes "\<not> isLinesPart rawPart"
  shows "lines (meta (parsePart N r rawPart)) = lines (meta r)"
    and "linesSpecified (specified (parsePart N r rawPart)) = linesSpecified (specified r)"
  using parsePart_cases [of N r rawPart] assms by auto

lemma parsePart_unrecognised: "\<not> isRecognisedPart rawPart \<Longrightarrow> parsePart N r rawPart = r"
  using parsePart_cases [of N r rawPart] by (auto simp: isRecognisedPart_def)

lemma parsePart_startLine_valid:
  assumes "isStartLinePart rawPart" and "valueOf (trim rawPart) = Some v"
    and "N v = JsFinite n" and "1 \<le> n"
  shows "parsePart N r rawPart =
     r\<lparr>meta := (meta r)\<lparr>startLine := \<lfloor>n\<rfloor>\<rparr>,
       specified := (specified r)\<lparr>startLineSpecified := True\<rparr>\<rparr>"
  using assms by (simp add: parsePart_def isStartLinePart_def Let_def)

lemma parsePart_startLine_ignored:
  assumes "isStartLinePart rawPart"
    and "valueOf (trim rawPart) = None
         \<or> (\<exists>v. valueOf (trim rawPart) = Some v
                \<and> (N v = JsNaN \<or> (\<exists>b. N v = JsInfinity b) \<or> (\<exists>n. N v = JsFinite n \<and> n < 1)))"
  shows "parsePart N r rawPart = r"
  using assms by (auto simp: parsePart_def isStartLinePart_def Let_def)

lemma foldl_parsePart_filter:
  "foldl (parsePart N) r ps = foldl (parsePart N) r (filter isRecognisedPart ps)"
  by (induction ps arbitrary: r) (simp_all add: parsePart_unrecognised)

lemma foldl_parsePart_lines:
  "linesSpecified (specified (foldl (parsePart N) r ps))
     = (linesSpecified (specified r) \<or> filter isLinesPart ps \<noteq> [])
   \<and> lines (meta (foldl (parsePart N) r ps))
     = (if filter isLinesPart ps = [] then lines (meta r)
        else valueOf (trim (last (filter isLinesPart ps))) = Some ''true'')"
proof (induction ps rule: rev_induct)
  case Nil
  show ?case by simp
next
  case (snoc p ps)
  show ?case
  proof (cases "isLinesPart p")
    case True
    then show ?thesis by (simp add: parsePart_lines)
  next
    case False
    with snoc show ?thesis by (simp add: parsePart_not_lines)
  qed
qed

lemma parsePart_startLine_ge:
  assumes "1 \<le> startLine (meta r)"
  shows "1 \<le> startLine (meta (parsePart N r rawPart))"
  using parsePart_cases [of N r rawPart] assms by (auto simp: le_floor_iff)

lemma foldl_parsePart_startLine_ge:
  "1 \<le> startLine (meta r) \<Longrightarrow> 1 \<le> startLine (meta (foldl (parsePart N) r ps))"
  by (induction ps arbitrary: r) (simp_all add: parsePart_startLine_ge)

lemma parseLineMetaDetailed_startLine_ge:
  "1 \<le> startLine (meta (parseLineMetaDetailed N t))"
  by (simp add: parseLineMetaDetailed_fold defaultResult_def foldl_parsePart_startLine_ge)

section \<open>Properties of the steps\<close>

text \<open>The metadata of a step: each key from the fence when the fence specified it, else from the block.\<close>

lemma makeStep_meta:
  "stepMeta (makeStep N outer f) =
     \<lparr>lines = (if linesSpecified (specified (parseLineMetaDetailed N (ownMetaText f)))
               then lines (meta (parseLineMetaDetailed N (ownMetaText f))) else lines outer),
      startLine = (if startLineSpecified (specified (parseLineMetaDetailed N (ownMetaText f)))
                   then startLine (meta (parseLineMetaDetailed N (ownMetaText f)))
                   else startLine outer)\<rparr>"
  by (simp add: makeStep_def ownMetaText_def Let_def split: prod.splits)

lemma makeStep_lang:
  "lang (makeStep N outer f) =
     (if fst (stripFirstWord (info f)) = [] then ''text'' else fst (stripFirstWord (info f)))"
  by (simp add: makeStep_def Let_def split: prod.splits)

lemma makeStep_startLine_ge:
  "1 \<le> startLine outer \<Longrightarrow> 1 \<le> startLine (stepMeta (makeStep N outer f))"
  by (simp add: makeStep_meta parseLineMetaDetailed_startLine_ge)

lemma stripFirstWord_blank: "list_all isWhiteSpace t \<Longrightarrow> fst (stripFirstWord t) = []"
  by (cases t) (simp_all add: stripFirstWord_def)

lemma blockErrors_valid:
  assumes "\<forall>s\<in>set ss. 1 \<le> startLine (stepMeta s)"
  shows "blockErrors ss = (if ss = [] then [noStepsError] else [])"
proof -
  have "\<forall>p\<in>set (enumerate 0 ss). \<not> startLine (stepMeta (snd p)) < 1"
  proof
    fix p assume "p \<in> set (enumerate 0 ss)"
    then have "fst p < length ss \<and> ss ! fst p = snd p"
      unfolding in_set_enumerate_eq by simp
    then have "snd p \<in> set ss" by (metis nth_mem)
    with assms have "1 \<le> startLine (stepMeta (snd p))" by blast
    then show "\<not> startLine (stepMeta (snd p)) < 1" by simp
  qed
  then have "concat (map (\<lambda>(idx, s). if startLine (stepMeta s) < 1 then [startLineError idx] else [])
                 (enumerate 0 ss)) = []"
    by (auto simp: concat_eq_Nil_conv split: prod.splits)
  then show ?thesis by (simp add: blockErrors_def)
qed

lemma startLineError_neq: "startLineError idx \<noteq> noStepsError"
  by (simp add: startLineError_def noStepsError_def)

lemma parseBlock_steps:
  "s \<in> set (steps (parseBlock N m)) \<Longrightarrow>
     \<exists>f. fence f = ''```'' \<and> s = makeStep N (outerMeta (parseBlock N m)) f"
  by (auto simp: parseBlock_def Let_def split: prod.splits)

lemma parseBlock_outer_ge: "1 \<le> startLine (outerMeta (parseBlock N m))"
  by (simp add: parseBlock_def Let_def parseLineMetaDetailed_startLine_ge split: prod.splits)

lemma parseBlock_errors: "errors (parseBlock N m) = blockErrors (steps (parseBlock N m))"
  by (simp add: parseBlock_def Let_def split: prod.splits)

lemma parseMagicMove_blocks:
  "b \<in> set (blocks (parseMagicMove N input)) \<Longrightarrow> \<exists>m. b = parseBlock N m"
  by (auto simp: parseMagicMove_def Let_def)

section \<open>From the info string to the result\<close>

text \<open>A blank part changes nothing, and a part that does not set a key leaves the key as it was.\<close>

lemma parsePart_blank: "parsePart N r [] = r"
  by (simp add: parsePart_def trim_def)

lemma parsePart_not_startLine:
  assumes "\<not> isStartLinePart rawPart"
  shows "startLine (meta (parsePart N r rawPart)) = startLine (meta r)"
    and "startLineSpecified (specified (parsePart N r rawPart))
           = startLineSpecified (specified r)"
  using parsePart_cases [of N r rawPart] assms by auto

lemma foldl_parsePart_not_startLine:
  "\<forall>x\<in>set ps. \<not> isStartLinePart x \<Longrightarrow>
   startLine (meta (foldl (parsePart N) r ps)) = startLine (meta r)
   \<and> startLineSpecified (specified (foldl (parsePart N) r ps))
       = startLineSpecified (specified r)"
  by (induction ps arbitrary: r) (simp_all add: parsePart_not_startLine)

lemma foldl_parsePart_drop:
  "(\<And>r. parsePart N r e = r) \<Longrightarrow>
   foldl (parsePart N) r (es1 @ e # es2) = foldl (parsePart N) r (es1 @ es2)"
  by simp

text \<open>
  The result for an info string with a brace group: the entries of the group from
  left to right, then the parts of what follows the group.
\<close>

lemma parseLineMetaDetailed_group:
  assumes "CHR ''{'' \<notin> set pre"
    and "\<forall>e\<in>set entries. CHR ''}'' \<notin> set e \<and> CHR '','' \<notin> set e"
  shows "parseLineMetaDetailed N (pre @ ''{'' @ joinWith (CHR '','') entries @ ''}'' @ post)
     = foldl (parsePart N) (foldl (parsePart N) defaultResult entries) (metaParts post)"
proof (cases "entries = []")
  case True
  have "braceGroups (pre @ ''{}'' @ post) = braceGroups (CHR ''{'' # [] @ CHR ''}'' # post)"
    using braceGroups_skip [OF assms(1)] by simp
  also have "\<dots> = [] # braceGroups post"
    by (rule braceGroups_group) simp
  finally have "metaParts (pre @ ''{}'' @ post) = [] # metaParts post"
    by (simp add: metaParts_def)
  with True show ?thesis
    by (simp add: parseLineMetaDetailed_fold parsePart_blank)
next
  case False
  from metaParts_group [OF assms(1) False assms(2), of post] show ?thesis
    by (simp add: parseLineMetaDetailed_fold)
qed

text \<open>The key and the value of a part: the text before the first colon, and the text
  between the first colon and the second one or the end, both trimmed.\<close>

lemma keyOf_valueOf:
  assumes "CHR '':'' \<notin> set k" and "CHR '':'' \<notin> set v"
    and "further = [] \<or> hd further = CHR '':''"
  shows "keyOf (k @ CHR '':'' # v @ further) = trim k"
    and "valueOf (k @ CHR '':'' # v @ further) = Some (trim v)"
proof -
  have "\<exists>ps. splitOn (CHR '':'') (v @ further) = v # ps"
  proof (cases further)
    case Nil
    with assms(2) show ?thesis by (simp add: splitOn_no_sep)
  next
    case (Cons x xs)
    with assms(3) have "further = CHR '':'' # xs" by simp
    with assms(2) show ?thesis by (simp add: splitOn_sep)
  qed
  then obtain ps where "splitOn (CHR '':'') (v @ further) = v # ps" by blast
  with assms(1) have s: "splitOn (CHR '':'') (k @ CHR '':'' # v @ further) = k # v # ps"
    by (simp add: splitOn_sep)
  show "keyOf (k @ CHR '':'' # v @ further) = trim k" by (simp add: keyOf_def s)
  show "valueOf (k @ CHR '':'' # v @ further) = Some (trim v)" by (simp add: valueOf_def s)
qed

text \<open>The metadata text of a fence: what follows the first word and the white space after it.\<close>

lemma ownMetaText_rest:
  assumes "w \<noteq> []" and "\<forall>c\<in>set w. \<not> isWhiteSpace c"
    and "ws \<noteq> []" and "\<forall>c\<in>set ws. isWhiteSpace c"
    and "\<not> list_ex isLineTerminator rest" and "info f = w @ ws @ rest"
  shows "ownMetaText f = trim rest"
  using stripFirstWord_rest [OF assms(1-5)] assms(6) by (simp add: ownMetaText_def)

lemma ownMetaText_word:
  assumes "\<forall>c\<in>set (info f). \<not> isWhiteSpace c"
  shows "ownMetaText f = []"
proof (cases "info f = []")
  case True
  then show ?thesis by (simp add: ownMetaText_def stripFirstWord_def)
next
  case False
  with assms show ?thesis by (simp add: ownMetaText_def stripFirstWord_word)
qed

lemma makeStep_own_empty: "ownMetaText f = [] \<Longrightarrow> stepMeta (makeStep N outer f) = outer"
  by (simp add: makeStep_meta parseLineMetaDetailed_def)

text \<open>The language of a step whose info string is trimmed and has no line terminator.\<close>

lemma makeStep_lang_trimmed:
  assumes "\<not> list_ex isLineTerminator (info f)"
    and "info f = [] \<or> \<not> isWhiteSpace (hd (info f))"
  shows "lang (makeStep N outer f) =
     (if info f = [] then ''text'' else takeWhile (\<lambda>c. \<not> isWhiteSpace c) (info f))"
    and "lang (makeStep N outer f) \<noteq> []"
proof -
  show l: "lang (makeStep N outer f) =
     (if info f = [] then ''text'' else takeWhile (\<lambda>c. \<not> isWhiteSpace c) (info f))"
  proof (cases "info f = []")
    case True
    then show ?thesis by (simp add: makeStep_lang stripFirstWord_def)
  next
    case False
    with assms stripFirstWord_trimmed [of "info f"] show ?thesis
      by (simp add: makeStep_lang)
  qed
  show "lang (makeStep N outer f) \<noteq> []" by (simp add: makeStep_lang)
qed

lemma parseBlock_steps_info:
  "s \<in> set (steps (parseBlock N m)) \<Longrightarrow>
     \<exists>f. fence f = ''```'' \<and> \<not> list_ex isLineTerminator (info f)
         \<and> (info f = [] \<or> \<not> isWhiteSpace (hd (info f)))
         \<and> s = makeStep N (outerMeta (parseBlock N m)) f"
proof -
  obtain m2 m3 m4 where m: "m = (m2, m3, m4)" by (cases m)
  assume "s \<in> set (steps (parseBlock N m))"
  then obtain f where f: "f \<in> set (parseFencedBlocks m4)" "fence f = ''```''"
      "s = makeStep N (outerMeta (parseBlock N m)) f"
    by (auto simp: parseBlock_def Let_def m)
  from f(1) have "\<not> list_ex isLineTerminator (info f)
      \<and> (info f = [] \<or> \<not> isWhiteSpace (hd (info f)))"
    unfolding parseFencedBlocks_def by (rule parseFencedLines_info)
  with f(2,3) show ?thesis by blast
qed

section \<open>The examples, parsed\<close>

lemma demoDoc_parsed:
  "parseMagicMove decimalNumber demoDoc =
     \<lparr>blocks =
        [\<lparr>kind = ''shiki-magic-move'', outerMeta = \<lparr>lines = True, startLine = 5\<rparr>,
          steps =
            [\<lparr>lang = ''ts'', code = ''let a = 1'',
              stepMeta = \<lparr>lines = True, startLine = 5\<rparr>\<rparr>,
             \<lparr>lang = ''ts'', code = ''let a = 2\<newline>let b'',
              stepMeta = \<lparr>lines = True, startLine = 10\<rparr>\<rparr>],
          errors = []\<rparr>],
      docErrors = []\<rparr>"
  by code_simp

lemma linesDoc_parsed:
  "parseMagicMove decimalNumber linesDoc =
     \<lparr>blocks =
        [\<lparr>kind = ''md magic-move'', outerMeta = \<lparr>lines = True, startLine = 1\<rparr>,
          steps =
            [\<lparr>lang = ''ts'', code = ''a'', stepMeta = \<lparr>lines = False, startLine = 1\<rparr>\<rparr>,
             \<lparr>lang = ''ts'', code = ''b'', stepMeta = \<lparr>lines = False, startLine = 1\<rparr>\<rparr>,
             \<lparr>lang = ''ts'', code = ''c'', stepMeta = \<lparr>lines = True, startLine = 1\<rparr>\<rparr>,
             \<lparr>lang = ''text'', code = ''d'', stepMeta = \<lparr>lines = True, startLine = 1\<rparr>\<rparr>],
          errors = []\<rparr>],
      docErrors = []\<rparr>"
  by code_simp

text \<open>
  The example of the README parses into three steps without code: the wrapper line
  ends after the keyword, so the third group of the pattern is the opening line of
  the first step.
\<close>

lemma optionBDoc_parsed:
  "parseMagicMove decimalNumber optionBDoc =
     \<lparr>blocks =
        [\<lparr>kind = ''md magic-move'', outerMeta = \<lparr>lines = False, startLine = 1\<rparr>,
          steps =
            [\<lparr>lang = ''text'', code = [], stepMeta = \<lparr>lines = False, startLine = 1\<rparr>\<rparr>,
             \<lparr>lang = ''text'', code = [], stepMeta = \<lparr>lines = False, startLine = 1\<rparr>\<rparr>,
             \<lparr>lang = ''text'', code = [], stepMeta = \<lparr>lines = False, startLine = 1\<rparr>\<rparr>],
          errors = []\<rparr>],
      docErrors = []\<rparr>"
  by code_simp

lemma firstWordDoc_parsed:
  "parseMagicMove decimalNumber firstWordDoc =
     \<lparr>blocks =
        [\<lparr>kind = ''md magic-move'', outerMeta = \<lparr>lines = True, startLine = 1\<rparr>,
          steps =
            [\<lparr>lang = ''{lines:false}'', code = ''a'',
              stepMeta = \<lparr>lines = True, startLine = 1\<rparr>\<rparr>,
             \<lparr>lang = ''ts{lines:false}'', code = ''b'',
              stepMeta = \<lparr>lines = True, startLine = 1\<rparr>\<rparr>,
             \<lparr>lang = ''ts'', code = ''c'', stepMeta = \<lparr>lines = False, startLine = 1\<rparr>\<rparr>],
          errors = []\<rparr>],
      docErrors = []\<rparr>"
  by code_simp

section \<open>Claims about the parser\<close>

text \<open>
  C2. The claim asks that a step without a key of its own falls back to the outer
  metadata of the wrapper, and that this metadata is \<open>lines = false\<close>, \<open>startLine = 1\<close>
  when the wrapper has none. The rule that combines the two (\<open>makeStep_meta\<close>) does
  so, and the example of the claim parses as the claim says (\<open>demoDoc_parsed\<close>). But
  in \<open>bareDoc\<close> the wrapper line ends after the keyword: the white space of the
  pattern runs over the line feed, the third group is the opening line of the first
  step with its \<open>lines:true\<close>, and the text of the block starts inside the first step.
  The block comes out with \<open>lines = true\<close> as its outer metadata, and its two steps
  with no code, the language \<open>text\<close> and \<open>lines = true\<close>; the second step of the
  document has no metadata and its wrapper has none.
\<close>

theorem bare_wrapper_takes_first_fence:
  "matchAllBlocks True bareDoc =
     [(''shiki-magic-move'', ''```ts {lines:true}'', ''a\<newline>```\<newline>```ts\<newline>b\<newline>```'')]
   \<and> parseMagicMove decimalNumber bareDoc =
     \<lparr>blocks =
        [\<lparr>kind = ''shiki-magic-move'', outerMeta = \<lparr>lines = True, startLine = 1\<rparr>,
          steps =
            [\<lparr>lang = ''text'', code = [], stepMeta = \<lparr>lines = True, startLine = 1\<rparr>\<rparr>,
             \<lparr>lang = ''text'', code = [], stepMeta = \<lparr>lines = True, startLine = 1\<rparr>\<rparr>],
          errors = []\<rparr>],
      docErrors = []\<rparr>"
  by code_simp

text \<open>
  C5. For every document and every reading of \<open>Number\<close>, every step of every parsed
  block has a start line of at least 1; so no block has the error about the start
  line of a step, and the errors of a block are the error about a block without
  steps, or none.
\<close>

theorem startLine_always_valid:
  "\<forall>b\<in>set (blocks (parseMagicMove Number input)).
     (\<forall>s\<in>set (steps b). 1 \<le> startLine (stepMeta s))
     \<and> (\<forall>idx. startLineError idx \<notin> set (errors b))
     \<and> errors b = (if steps b = [] then [noStepsError] else [])"
proof
  fix b assume "b \<in> set (blocks (parseMagicMove Number input))"
  then obtain m where b: "b = parseBlock Number m" by (auto dest: parseMagicMove_blocks)
  have v: "\<forall>s\<in>set (steps b). 1 \<le> startLine (stepMeta s)"
  proof
    fix s assume "s \<in> set (steps b)"
    then obtain f where "s = makeStep Number (outerMeta b) f"
      unfolding b by (auto dest: parseBlock_steps)
    then show "1 \<le> startLine (stepMeta s)"
      by (simp add: b makeStep_startLine_ge parseBlock_outer_ge)
  qed
  then have e: "errors b = (if steps b = [] then [noStepsError] else [])"
    by (simp add: b parseBlock_errors blockErrors_valid)
  have "\<forall>idx. startLineError idx \<notin> set (errors b)"
    by (simp add: e startLineError_neq)
  with v e show "(\<forall>s\<in>set (steps b). 1 \<le> startLine (stepMeta s))
     \<and> (\<forall>idx. startLineError idx \<notin> set (errors b))
     \<and> errors b = (if steps b = [] then [noStepsError] else [])"
    by blast
qed

theorem startLine_always_valid_witness:
  "length (blocks (parseMagicMove decimalNumber demoDoc)) = 1
   \<and> map (\<lambda>s. startLine (stepMeta s)) (steps (hd (blocks (parseMagicMove decimalNumber demoDoc))))
       = [5, 10]
   \<and> 1 \<le> startLine (stepMeta (hd (steps (hd (blocks (parseMagicMove decimalNumber demoDoc))))))
   \<and> startLineError 0 \<notin> set (errors (hd (blocks (parseMagicMove decimalNumber demoDoc))))"
  using startLine_always_valid [of decimalNumber demoDoc]
  by (simp add: demoDoc_parsed)

text \<open>
  C6. For every info string and every reading of \<open>Number\<close>. The entries that the parser
  reads are the texts between the commas of the brace groups of the info string, from
  left to right; an info string without a brace group gives the defaults. An entry
  with the key \<open>startLine\<close> whose value converts to a finite number of at least 1 sets
  the start line to the floor of that number and marks it specified: when no entry
  with that key follows it, this is the start line of the result. An entry with the
  key \<open>startLine\<close> whose value converts to a number below 1, to an infinity or to no
  number, or that has no value, and an entry with any other key than the two known
  ones, leave the result as it was: the result for the info string is the result for
  the info string without that entry.
\<close>

theorem startLine_entry_resolution:
  "(isStartLinePart rawPart \<and> valueOf (trim rawPart) = Some v
      \<and> Number v = JsFinite n \<and> 1 \<le> n
        \<longrightarrow> parsePart Number r rawPart =
              r\<lparr>meta := (meta r)\<lparr>startLine := \<lfloor>n\<rfloor>\<rparr>,
                specified := (specified r)\<lparr>startLineSpecified := True\<rparr>\<rparr>)
   \<and> (isStartLinePart rawPart \<and> valueOf (trim rawPart) = Some v
      \<and> (Number v = JsNaN \<or> Number v = JsInfinity b \<or> (Number v = JsFinite n \<and> n < 1))
        \<longrightarrow> parsePart Number r rawPart = r)
   \<and> (isStartLinePart rawPart \<and> valueOf (trim rawPart) = None
        \<longrightarrow> parsePart Number r rawPart = r)
   \<and> (\<not> isRecognisedPart rawPart \<longrightarrow> parsePart Number r rawPart = r)
   \<and> parseLineMetaDetailed Number infoText =
       foldl (parsePart Number) defaultResult (filter isRecognisedPart (metaParts infoText))
   \<and> (CHR ''{'' \<notin> set pre \<and> entries \<noteq> []
      \<and> (\<forall>x\<in>set entries. CHR ''}'' \<notin> set x \<and> CHR '','' \<notin> set x)
        \<longrightarrow> metaParts (pre @ ''{'' @ joinWith (CHR '','') entries @ ''}'' @ post)
              = entries @ metaParts post)
   \<and> (CHR ''{'' \<notin> set infoText \<or> CHR ''}'' \<notin> set infoText
        \<longrightarrow> parseLineMetaDetailed Number infoText = defaultResult)
   \<and> (CHR ''{'' \<notin> set pre
      \<and> (\<forall>x\<in>set (es1 @ e # es2). CHR ''}'' \<notin> set x \<and> CHR '','' \<notin> set x)
      \<and> CHR ''{'' \<notin> set post \<and> (\<forall>x\<in>set es2. \<not> isStartLinePart x)
      \<and> isStartLinePart e \<and> valueOf (trim e) = Some v \<and> Number v = JsFinite n \<and> 1 \<le> n
        \<longrightarrow> startLine (meta (parseLineMetaDetailed Number
                (pre @ ''{'' @ joinWith (CHR '','') (es1 @ e # es2) @ ''}'' @ post))) = \<lfloor>n\<rfloor>
            \<and> startLineSpecified (specified (parseLineMetaDetailed Number
                (pre @ ''{'' @ joinWith (CHR '','') (es1 @ e # es2) @ ''}'' @ post))))
   \<and> (CHR ''{'' \<notin> set pre
      \<and> (\<forall>x\<in>set (es1 @ e # es2). CHR ''}'' \<notin> set x \<and> CHR '','' \<notin> set x)
      \<and> (\<not> isRecognisedPart e
          \<or> (isStartLinePart e
              \<and> (valueOf (trim e) = None
                  \<or> (valueOf (trim e) = Some v
                      \<and> (Number v = JsNaN \<or> Number v = JsInfinity b
                          \<or> (Number v = JsFinite n \<and> n < 1))))))
        \<longrightarrow> parseLineMetaDetailed Number
              (pre @ ''{'' @ joinWith (CHR '','') (es1 @ e # es2) @ ''}'' @ post)
            = parseLineMetaDetailed Number
                (pre @ ''{'' @ joinWith (CHR '','') (es1 @ es2) @ ''}'' @ post))"
proof (intro conjI impI)
  assume "isStartLinePart rawPart \<and> valueOf (trim rawPart) = Some v
      \<and> Number v = JsFinite n \<and> 1 \<le> n"
  then show "parsePart Number r rawPart =
      r\<lparr>meta := (meta r)\<lparr>startLine := \<lfloor>n\<rfloor>\<rparr>,
        specified := (specified r)\<lparr>startLineSpecified := True\<rparr>\<rparr>"
    by (simp add: parsePart_startLine_valid)
next
  assume "isStartLinePart rawPart \<and> valueOf (trim rawPart) = Some v
      \<and> (Number v = JsNaN \<or> Number v = JsInfinity b \<or> (Number v = JsFinite n \<and> n < 1))"
  then show "parsePart Number r rawPart = r"
    by (intro parsePart_startLine_ignored) auto
next
  assume "isStartLinePart rawPart \<and> valueOf (trim rawPart) = None"
  then show "parsePart Number r rawPart = r"
    by (intro parsePart_startLine_ignored) auto
next
  assume "\<not> isRecognisedPart rawPart"
  then show "parsePart Number r rawPart = r" by (rule parsePart_unrecognised)
next
  show "parseLineMetaDetailed Number infoText =
      foldl (parsePart Number) defaultResult (filter isRecognisedPart (metaParts infoText))"
    unfolding parseLineMetaDetailed_fold by (rule foldl_parsePart_filter)
next
  assume "CHR ''{'' \<notin> set pre \<and> entries \<noteq> []
      \<and> (\<forall>x\<in>set entries. CHR ''}'' \<notin> set x \<and> CHR '','' \<notin> set x)"
  then show "metaParts (pre @ ''{'' @ joinWith (CHR '','') entries @ ''}'' @ post)
      = entries @ metaParts post"
    by (intro metaParts_group) simp_all
next
  assume "CHR ''{'' \<notin> set infoText \<or> CHR ''}'' \<notin> set infoText"
  then show "parseLineMetaDetailed Number infoText = defaultResult"
    by (simp add: parseLineMetaDetailed_fold metaParts_none)
next
  let ?t = "pre @ ''{'' @ joinWith (CHR '','') (es1 @ e # es2) @ ''}'' @ post"
  assume h: "CHR ''{'' \<notin> set pre
      \<and> (\<forall>x\<in>set (es1 @ e # es2). CHR ''}'' \<notin> set x \<and> CHR '','' \<notin> set x)
      \<and> CHR ''{'' \<notin> set post \<and> (\<forall>x\<in>set es2. \<not> isStartLinePart x)
      \<and> isStartLinePart e \<and> valueOf (trim e) = Some v \<and> Number v = JsFinite n \<and> 1 \<le> n"
  then have "parseLineMetaDetailed Number ?t =
      foldl (parsePart Number) (foldl (parsePart Number) defaultResult (es1 @ e # es2))
        (metaParts post)"
    by (intro parseLineMetaDetailed_group) simp_all
  with h have p: "parseLineMetaDetailed Number ?t =
      foldl (parsePart Number)
        (parsePart Number (foldl (parsePart Number) defaultResult es1) e) es2"
    by (simp add: metaParts_none)
  from h have q: "parsePart Number (foldl (parsePart Number) defaultResult es1) e =
      (foldl (parsePart Number) defaultResult es1)
        \<lparr>meta := (meta (foldl (parsePart Number) defaultResult es1))\<lparr>startLine := \<lfloor>n\<rfloor>\<rparr>,
          specified := (specified (foldl (parsePart Number) defaultResult es1))
            \<lparr>startLineSpecified := True\<rparr>\<rparr>"
    by (intro parsePart_startLine_valid [where v = v]) simp_all
  from h have k: "\<forall>x\<in>set es2. \<not> isStartLinePart x" by simp
  show "startLine (meta (parseLineMetaDetailed Number ?t)) = \<lfloor>n\<rfloor>"
    unfolding p using foldl_parsePart_not_startLine [OF k] by (simp add: q)
  show "startLineSpecified (specified (parseLineMetaDetailed Number ?t))"
    unfolding p using foldl_parsePart_not_startLine [OF k] by (simp add: q)
next
  assume h: "CHR ''{'' \<notin> set pre
      \<and> (\<forall>x\<in>set (es1 @ e # es2). CHR ''}'' \<notin> set x \<and> CHR '','' \<notin> set x)
      \<and> (\<not> isRecognisedPart e
          \<or> (isStartLinePart e
              \<and> (valueOf (trim e) = None
                  \<or> (valueOf (trim e) = Some v
                      \<and> (Number v = JsNaN \<or> Number v = JsInfinity b
                          \<or> (Number v = JsFinite n \<and> n < 1))))))"
  have i: "parsePart Number r' e = r'" for r'
  proof (cases "isRecognisedPart e")
    case False
    then show ?thesis by (rule parsePart_unrecognised)
  next
    case True
    with h show ?thesis by (intro parsePart_startLine_ignored) auto
  qed
  from h have "parseLineMetaDetailed Number
        (pre @ ''{'' @ joinWith (CHR '','') (es1 @ e # es2) @ ''}'' @ post) =
      foldl (parsePart Number) (foldl (parsePart Number) defaultResult (es1 @ e # es2))
        (metaParts post)"
    by (intro parseLineMetaDetailed_group) simp_all
  moreover from h have "parseLineMetaDetailed Number
        (pre @ ''{'' @ joinWith (CHR '','') (es1 @ es2) @ ''}'' @ post) =
      foldl (parsePart Number) (foldl (parsePart Number) defaultResult (es1 @ es2))
        (metaParts post)"
    by (intro parseLineMetaDetailed_group) simp_all
  ultimately show "parseLineMetaDetailed Number
        (pre @ ''{'' @ joinWith (CHR '','') (es1 @ e # es2) @ ''}'' @ post)
      = parseLineMetaDetailed Number
          (pre @ ''{'' @ joinWith (CHR '','') (es1 @ es2) @ ''}'' @ post)"
    by (simp add: i)
qed

lemma startLine_examples:
  "isStartLinePart '' startLine: 7.9''" "valueOf (trim '' startLine: 7.9'') = Some ''7.9''"
  "decimalNumber ''7.9'' = JsFinite (79 / 10)"
  "isStartLinePart ''startLine:0.5''" "valueOf (trim ''startLine:0.5'') = Some ''0.5''"
  "decimalNumber ''0.5'' = JsFinite (1 / 2)"
  "isStartLinePart ''startLine:abc''" "valueOf (trim ''startLine:abc'') = Some ''abc''"
  "decimalNumber ''abc'' = JsNaN"
  "isStartLinePart ''startLine''" "valueOf (trim ''startLine'') = None"
  "\<not> isRecognisedPart ''foo:3''" "\<not> isStartLinePart ''lines:true''"
  "parseLineMetaDetailed decimalNumber ''ts {}'' = defaultResult"
  by code_simp+

theorem startLine_entry_resolution_witness:
  "startLine (meta (parseLineMetaDetailed decimalNumber
       ''ts {foo:3, startLine: 7.9,lines:true}'')) = 7
   \<and> startLineSpecified (specified (parseLineMetaDetailed decimalNumber
       ''ts {foo:3, startLine: 7.9,lines:true}''))
   \<and> parseLineMetaDetailed decimalNumber ''ts {startLine:0.5}'' = defaultResult
   \<and> parseLineMetaDetailed decimalNumber ''ts {startLine:abc}'' = defaultResult
   \<and> parseLineMetaDetailed decimalNumber ''ts {startLine}'' = defaultResult
   \<and> parseLineMetaDetailed decimalNumber ''ts {foo:3}'' = defaultResult
   \<and> metaParts ''ts {foo:3, startLine: 7.9,lines:true}''
       = [''foo:3'', '' startLine: 7.9'', ''lines:true'']"
proof -
  have f: "\<lfloor>79 / 10 :: real\<rfloor> = 7" by linarith
  have a: "startLine (meta (parseLineMetaDetailed decimalNumber
         ''ts {foo:3, startLine: 7.9,lines:true}'')) = 7
      \<and> startLineSpecified (specified (parseLineMetaDetailed decimalNumber
         ''ts {foo:3, startLine: 7.9,lines:true}''))"
    using startLine_entry_resolution
      [where Number = decimalNumber and rawPart = "[]" and infoText = "[]" and entries = "[]"
        and r = defaultResult and b = True and pre = "''ts ''" and ?es1.0 = "[''foo:3'']"
        and e = "'' startLine: 7.9''" and ?es2.0 = "[''lines:true'']" and post = "[]"
        and v = "''7.9''" and n = "79 / 10"]
    by (simp add: startLine_examples f)
  have b: "parseLineMetaDetailed decimalNumber ''ts {startLine:0.5}'' = defaultResult"
    using startLine_entry_resolution
      [where Number = decimalNumber and rawPart = "[]" and infoText = "[]" and entries = "[]"
        and r = defaultResult and b = True and pre = "''ts ''" and ?es1.0 = "[]"
        and e = "''startLine:0.5''" and ?es2.0 = "[]" and post = "[]"
        and v = "''0.5''" and n = "1 / 2"]
    by (simp add: startLine_examples)
  have c: "parseLineMetaDetailed decimalNumber ''ts {startLine:abc}'' = defaultResult"
    using startLine_entry_resolution
      [where Number = decimalNumber and rawPart = "[]" and infoText = "[]" and entries = "[]"
        and r = defaultResult and b = True and pre = "''ts ''" and ?es1.0 = "[]"
        and e = "''startLine:abc''" and ?es2.0 = "[]" and post = "[]" and v = "''abc''"
        and n = 0]
    by (simp add: startLine_examples)
  have d: "parseLineMetaDetailed decimalNumber ''ts {startLine}'' = defaultResult"
    using startLine_entry_resolution
      [where Number = decimalNumber and rawPart = "[]" and infoText = "[]" and entries = "[]"
        and r = defaultResult and b = True and pre = "''ts ''" and ?es1.0 = "[]"
        and e = "''startLine''" and ?es2.0 = "[]" and post = "[]" and v = "[]" and n = 0]
    by (simp add: startLine_examples)
  have e: "parseLineMetaDetailed decimalNumber ''ts {foo:3}'' = defaultResult"
    using startLine_entry_resolution
      [where Number = decimalNumber and rawPart = "[]" and infoText = "[]" and entries = "[]"
        and r = defaultResult and b = True and pre = "''ts ''" and ?es1.0 = "[]"
        and e = "''foo:3''" and ?es2.0 = "[]" and post = "[]" and v = "[]" and n = 0]
    by (simp add: startLine_examples)
  have g: "metaParts ''ts {foo:3, startLine: 7.9,lines:true}''
       = [''foo:3'', '' startLine: 7.9'', ''lines:true'']"
    using startLine_entry_resolution
      [where Number = decimalNumber and rawPart = "[]" and infoText = "[]"
        and r = defaultResult and b = True and v = "[]" and n = 0 and ?es1.0 = "[]"
        and e = "[]" and ?es2.0 = "[]" and pre = "''ts ''"
        and entries = "[''foo:3'', '' startLine: 7.9'', ''lines:true'']" and post = "[]"]
    by (simp add: metaParts_def)
  from a b c d e g show ?thesis by simp
qed

text \<open>
  C9, as amended. For every document, every step of every parsed block is made from a
  fence of three backquotes, and its language is not empty: it is \<open>text\<close> when the info
  string of the fence is empty, and the first word of the info string otherwise, that
  is the text up to the first white space. For every fence: the language is \<open>text\<close>
  when the info string is empty or white space only, and it is the first word
  whatever the word is made of, so an info string that starts with a brace group has
  that group, up to the first white space, as its language.
\<close>

theorem step_language_never_empty:
  "(\<forall>b\<in>set (blocks (parseMagicMove Number input)). \<forall>s\<in>set (steps b).
       lang s \<noteq> []
       \<and> (\<exists>f. fence f = ''```'' \<and> s = makeStep Number (outerMeta b) f
              \<and> lang s = (if info f = [] then ''text''
                          else takeWhile (\<lambda>c. \<not> isWhiteSpace c) (info f))))
   \<and> (list_all isWhiteSpace (info f) \<longrightarrow> lang (makeStep Number outer f) = ''text'')
   \<and> (w \<noteq> [] \<and> (\<forall>c\<in>set w. \<not> isWhiteSpace c)
      \<and> (after = [] \<or> isWhiteSpace (hd after)) \<and> \<not> list_ex isLineTerminator after
      \<and> info f = w @ after
        \<longrightarrow> lang (makeStep Number outer f) = w)"
proof (intro conjI ballI impI)
  fix b s
  assume "b \<in> set (blocks (parseMagicMove Number input))" and s: "s \<in> set (steps b)"
  then obtain m where b: "b = parseBlock Number m" by (auto dest: parseMagicMove_blocks)
  from s obtain g where g: "fence g = ''```''" "\<not> list_ex isLineTerminator (info g)"
      "info g = [] \<or> \<not> isWhiteSpace (hd (info g))" "s = makeStep Number (outerMeta b) g"
    unfolding b by (auto dest: parseBlock_steps_info)
  from g(4) show "lang s \<noteq> []" by (simp add: makeStep_lang)
  from makeStep_lang_trimmed(1) [OF g(2,3)] g(4)
  have "lang s = (if info g = [] then ''text''
                  else takeWhile (\<lambda>c. \<not> isWhiteSpace c) (info g))"
    by simp
  with g(1,4) show "\<exists>f. fence f = ''```'' \<and> s = makeStep Number (outerMeta b) f
      \<and> lang s = (if info f = [] then ''text''
                  else takeWhile (\<lambda>c. \<not> isWhiteSpace c) (info f))"
    by blast
next
  assume "list_all isWhiteSpace (info f)"
  then show "lang (makeStep Number outer f) = ''text''"
    by (simp add: makeStep_lang stripFirstWord_blank)
next
  assume h: "w \<noteq> [] \<and> (\<forall>c\<in>set w. \<not> isWhiteSpace c)
      \<and> (after = [] \<or> isWhiteSpace (hd after)) \<and> \<not> list_ex isLineTerminator after
      \<and> info f = w @ after"
  have "fst (stripFirstWord (w @ after)) = w"
  proof (cases after)
    case Nil
    with h show ?thesis by (simp add: stripFirstWord_word)
  next
    case (Cons x xs)
    with h have "stripFirstWord (w @ [x] @ xs) = (w, trim xs)"
      by (intro stripFirstWord_rest) simp_all
    with Cons show ?thesis by simp
  qed
  with h show "lang (makeStep Number outer f) = w" by (simp add: makeStep_lang)
qed

lemma language_examples:
  "set (blocks (parseMagicMove decimalNumber linesDoc))
     = {hd (blocks (parseMagicMove decimalNumber linesDoc))}"
  "hd (steps (hd (blocks (parseMagicMove decimalNumber linesDoc))))
     \<in> set (steps (hd (blocks (parseMagicMove decimalNumber linesDoc))))"
  by (simp_all add: linesDoc_parsed)

theorem step_language_never_empty_witness:
  "map lang (steps (hd (blocks (parseMagicMove decimalNumber linesDoc))))
     = [''ts'', ''ts'', ''ts'', ''text'']
   \<and> lang (hd (steps (hd (blocks (parseMagicMove decimalNumber linesDoc))))) \<noteq> []
   \<and> lang (makeStep decimalNumber \<lparr>lines = True, startLine = 1\<rparr>
             \<lparr>fence = ''```'', info = [], body = ''d''\<rparr>) = ''text''
   \<and> lang (makeStep decimalNumber \<lparr>lines = True, startLine = 1\<rparr>
             \<lparr>fence = ''```'', info = ''ts {lines:yes}'', body = ''b''\<rparr>) = ''ts''
   \<and> lang (makeStep decimalNumber \<lparr>lines = True, startLine = 1\<rparr>
             \<lparr>fence = ''```'', info = ''{startLine:3} ts'', body = ''b''\<rparr>) = ''{startLine:3}''"
proof -
  have a: "lang (hd (steps (hd (blocks (parseMagicMove decimalNumber linesDoc))))) \<noteq> []"
    using step_language_never_empty
      [where Number = decimalNumber and input = linesDoc
        and f = "\<lparr>fence = ''```'', info = [], body = ''d''\<rparr>"
        and outer = "\<lparr>lines = True, startLine = 1\<rparr>" and w = "[]" and after = "[]"]
      language_examples
    by blast
  have b: "lang (makeStep decimalNumber \<lparr>lines = True, startLine = 1\<rparr>
             \<lparr>fence = ''```'', info = [], body = ''d''\<rparr>) = ''text''"
    using step_language_never_empty
      [where Number = decimalNumber and input = linesDoc
        and f = "\<lparr>fence = ''```'', info = [], body = ''d''\<rparr>"
        and outer = "\<lparr>lines = True, startLine = 1\<rparr>" and w = "[]" and after = "[]"]
    by simp
  have c: "lang (makeStep decimalNumber \<lparr>lines = True, startLine = 1\<rparr>
             \<lparr>fence = ''```'', info = ''ts {lines:yes}'', body = ''b''\<rparr>) = ''ts''"
    using step_language_never_empty
      [where Number = decimalNumber and input = linesDoc
        and f = "\<lparr>fence = ''```'', info = ''ts {lines:yes}'', body = ''b''\<rparr>"
        and outer = "\<lparr>lines = True, startLine = 1\<rparr>" and w = "''ts''"
        and after = "'' {lines:yes}''"]
    by (simp add: isWhiteSpace_def isLineTerminator_def)
  have d: "lang (makeStep decimalNumber \<lparr>lines = True, startLine = 1\<rparr>
             \<lparr>fence = ''```'', info = ''{startLine:3} ts'', body = ''b''\<rparr>) = ''{startLine:3}''"
    using step_language_never_empty
      [where Number = decimalNumber and input = linesDoc
        and f = "\<lparr>fence = ''```'', info = ''{startLine:3} ts'', body = ''b''\<rparr>"
        and outer = "\<lparr>lines = True, startLine = 1\<rparr>" and w = "''{startLine:3}''"
        and after = "'' ts''"]
    by (simp add: isWhiteSpace_def isLineTerminator_def)
  have e: "map lang (steps (hd (blocks (parseMagicMove decimalNumber linesDoc))))
     = [''ts'', ''ts'', ''ts'', ''text'']"
    by (simp add: linesDoc_parsed)
  from a b c d e show ?thesis by simp
qed

text \<open>
  Against C9 as it was written, which gives the language \<open>text\<close> to a fence with no word
  before its metadata. The first step of \<open>firstWordDoc\<close> is such a fence: its info string is the
  brace group \<open>{lines:false}\<close> alone, and its language is that group.
\<close>

theorem brace_group_is_the_language:
  "map info (parseFencedBlocks ''```{lines:false}\<newline>a\<newline>```'') = [''{lines:false}'']
   \<and> map lang (steps (hd (blocks (parseMagicMove decimalNumber firstWordDoc))))
       = [''{lines:false}'', ''ts{lines:false}'', ''ts'']
   \<and> lang (hd (steps (hd (blocks (parseMagicMove decimalNumber firstWordDoc))))) \<noteq> ''text''"
  by code_simp

text \<open>
  C10, as amended. For every reading of \<open>Number\<close>. The metadata of a step is read from
  the text that follows the first word of its info string and the white space after
  it. Whenever an entry with the key \<open>lines\<close> is in a brace group of that text, the key
  counts as specified and the step does not take \<open>lines\<close> from the block: it takes the
  value of the last such entry, which is true exactly when the value of the entry is
  \<open>true\<close>, where the value is the text between the first colon of the entry and the
  second one or the end, trimmed. So under an outer \<open>lines:true\<close> the steps \<open>ts {lines:false}\<close>
  and \<open>ts {lines:yes}\<close> have \<open>lines = false\<close>. A brace group in the first word is not
  metadata: a step whose info string has no white space takes all its metadata from the
  block.
\<close>

theorem lines_key_overrides:
  "(isLinesPart rawPart
      \<longrightarrow> parsePart Number r rawPart =
            r\<lparr>meta := (meta r)\<lparr>lines := (valueOf (trim rawPart) = Some ''true'')\<rparr>,
              specified := (specified r)\<lparr>linesSpecified := True\<rparr>\<rparr>)
   \<and> (CHR '':'' \<notin> set k \<and> CHR '':'' \<notin> set v \<and> (further = [] \<or> hd further = CHR '':'')
      \<longrightarrow> keyOf (k @ CHR '':'' # v @ further) = trim k
          \<and> valueOf (k @ CHR '':'' # v @ further) = Some (trim v))
   \<and> (filter isLinesPart (metaParts (ownMetaText f)) \<noteq> []
      \<longrightarrow> linesSpecified (specified (parseLineMetaDetailed Number (ownMetaText f)))
          \<and> lines (stepMeta (makeStep Number outer f))
            = (valueOf (trim (last (filter isLinesPart (metaParts (ownMetaText f)))))
               = Some ''true''))
   \<and> (w \<noteq> [] \<and> (\<forall>c\<in>set w. \<not> isWhiteSpace c) \<and> ws \<noteq> [] \<and> (\<forall>c\<in>set ws. isWhiteSpace c)
      \<and> \<not> list_ex isLineTerminator rest \<and> info f = w @ ws @ rest
      \<longrightarrow> metaParts (ownMetaText f) = metaParts rest)
   \<and> (CHR ''{'' \<notin> set pre \<and> entries \<noteq> []
      \<and> (\<forall>x\<in>set entries. CHR ''}'' \<notin> set x \<and> CHR '','' \<notin> set x)
      \<longrightarrow> metaParts (pre @ ''{'' @ joinWith (CHR '','') entries @ ''}'' @ post)
            = entries @ metaParts post)
   \<and> (w \<noteq> [] \<and> (\<forall>c\<in>set w. \<not> isWhiteSpace c) \<and> ws \<noteq> [] \<and> (\<forall>c\<in>set ws. isWhiteSpace c)
      \<and> CHR ''{'' \<notin> set pre \<and> (\<forall>x\<in>set entries. CHR ''}'' \<notin> set x \<and> CHR '','' \<notin> set x)
      \<and> CHR ''{'' \<notin> set post
      \<and> \<not> list_ex isLineTerminator (pre @ ''{'' @ joinWith (CHR '','') entries @ ''}'' @ post)
      \<and> info f = w @ ws @ pre @ ''{'' @ joinWith (CHR '','') entries @ ''}'' @ post
      \<and> filter isLinesPart entries \<noteq> []
      \<longrightarrow> lines (stepMeta (makeStep Number outer f))
            = (valueOf (trim (last (filter isLinesPart entries))) = Some ''true''))
   \<and> ((\<forall>c\<in>set (info f). \<not> isWhiteSpace c) \<longrightarrow> stepMeta (makeStep Number outer f) = outer)
   \<and> lines (outerMeta (hd (blocks (parseMagicMove decimalNumber linesDoc))))
   \<and> map (\<lambda>s. lines (stepMeta s)) (steps (hd (blocks (parseMagicMove decimalNumber linesDoc))))
       = [False, False, True, True]"
proof (intro conjI impI)
  assume "isLinesPart rawPart"
  then show "parsePart Number r rawPart =
      r\<lparr>meta := (meta r)\<lparr>lines := (valueOf (trim rawPart) = Some ''true'')\<rparr>,
        specified := (specified r)\<lparr>linesSpecified := True\<rparr>\<rparr>"
    by (rule parsePart_lines)
next
  assume h: "CHR '':'' \<notin> set k \<and> CHR '':'' \<notin> set v
      \<and> (further = [] \<or> hd further = CHR '':'')"
  then show "keyOf (k @ CHR '':'' # v @ further) = trim k"
    by (intro keyOf_valueOf(1) [where v = v and further = further]) simp_all
  from h show "valueOf (k @ CHR '':'' # v @ further) = Some (trim v)"
    by (intro keyOf_valueOf(2)) simp_all
next
  assume a: "filter isLinesPart (metaParts (ownMetaText f)) \<noteq> []"
  with foldl_parsePart_lines [of Number defaultResult "metaParts (ownMetaText f)"]
  show s: "linesSpecified (specified (parseLineMetaDetailed Number (ownMetaText f)))"
    by (simp add: parseLineMetaDetailed_fold)
  from a foldl_parsePart_lines [of Number defaultResult "metaParts (ownMetaText f)"]
  have "lines (meta (parseLineMetaDetailed Number (ownMetaText f)))
      = (valueOf (trim (last (filter isLinesPart (metaParts (ownMetaText f))))) = Some ''true'')"
    by (simp add: parseLineMetaDetailed_fold)
  with s show "lines (stepMeta (makeStep Number outer f))
      = (valueOf (trim (last (filter isLinesPart (metaParts (ownMetaText f))))) = Some ''true'')"
    by (simp add: makeStep_meta)
next
  assume "w \<noteq> [] \<and> (\<forall>c\<in>set w. \<not> isWhiteSpace c) \<and> ws \<noteq> [] \<and> (\<forall>c\<in>set ws. isWhiteSpace c)
      \<and> \<not> list_ex isLineTerminator rest \<and> info f = w @ ws @ rest"
  then have "ownMetaText f = trim rest"
    by (intro ownMetaText_rest [where w = w and ws = ws]) simp_all
  then show "metaParts (ownMetaText f) = metaParts rest" by (simp add: metaParts_trim)
next
  assume "CHR ''{'' \<notin> set pre \<and> entries \<noteq> []
      \<and> (\<forall>x\<in>set entries. CHR ''}'' \<notin> set x \<and> CHR '','' \<notin> set x)"
  then show "metaParts (pre @ ''{'' @ joinWith (CHR '','') entries @ ''}'' @ post)
      = entries @ metaParts post"
    by (intro metaParts_group) simp_all
next
  let ?rest = "pre @ ''{'' @ joinWith (CHR '','') entries @ ''}'' @ post"
  assume h: "w \<noteq> [] \<and> (\<forall>c\<in>set w. \<not> isWhiteSpace c) \<and> ws \<noteq> [] \<and> (\<forall>c\<in>set ws. isWhiteSpace c)
      \<and> CHR ''{'' \<notin> set pre \<and> (\<forall>x\<in>set entries. CHR ''}'' \<notin> set x \<and> CHR '','' \<notin> set x)
      \<and> CHR ''{'' \<notin> set post
      \<and> \<not> list_ex isLineTerminator ?rest
      \<and> info f = w @ ws @ ?rest
      \<and> filter isLinesPart entries \<noteq> []"
  then have "ownMetaText f = trim ?rest"
    by (intro ownMetaText_rest [where w = w and ws = ws]) simp_all
  then have "metaParts (ownMetaText f) = metaParts ?rest" by (simp only: metaParts_trim)
  also from h have "entries \<noteq> []" by auto
  with h have "metaParts ?rest = entries @ metaParts post"
    by (intro metaParts_group) simp_all
  also from h have "\<dots> = entries" by (simp add: metaParts_none)
  finally have m: "metaParts (ownMetaText f) = entries" .
  from h have n: "filter isLinesPart entries \<noteq> []" by simp
  from n foldl_parsePart_lines [of Number defaultResult entries]
  have "linesSpecified (specified (parseLineMetaDetailed Number (ownMetaText f)))
      \<and> lines (meta (parseLineMetaDetailed Number (ownMetaText f)))
        = (valueOf (trim (last (filter isLinesPart entries))) = Some ''true'')"
    by (simp add: parseLineMetaDetailed_fold m)
  then show "lines (stepMeta (makeStep Number outer f))
      = (valueOf (trim (last (filter isLinesPart entries))) = Some ''true'')"
    by (simp add: makeStep_meta)
next
  assume "\<forall>c\<in>set (info f). \<not> isWhiteSpace c"
  then have "ownMetaText f = []" by (rule ownMetaText_word)
  then show "stepMeta (makeStep Number outer f) = outer" by (rule makeStep_own_empty)
next
  show "lines (outerMeta (hd (blocks (parseMagicMove decimalNumber linesDoc))))"
    by (simp add: linesDoc_parsed)
next
  show "map (\<lambda>s. lines (stepMeta s)) (steps (hd (blocks (parseMagicMove decimalNumber linesDoc))))
       = [False, False, True, True]"
    by (simp add: linesDoc_parsed)
qed

lemma lines_examples:
  "isLinesPart ''lines:yes''" "valueOf (trim ''lines:yes'') = Some ''yes''"
  "isLinesPart '' lines : true ''" "valueOf (trim '' lines : true '') = Some ''true''"
  "\<not> isLinesPart ''startLine:3''"
  by code_simp+

theorem lines_key_overrides_witness:
  "lines (meta (parsePart decimalNumber defaultResult ''lines:yes'')) = False
   \<and> linesSpecified (specified (parsePart decimalNumber defaultResult ''lines:yes''))
   \<and> lines (stepMeta (makeStep decimalNumber \<lparr>lines = True, startLine = 1\<rparr>
        \<lparr>fence = ''```'', info = ''ts {lines:yes}'', body = ''b''\<rparr>)) = False
   \<and> lines (stepMeta (makeStep decimalNumber \<lparr>lines = False, startLine = 1\<rparr>
        \<lparr>fence = ''```'', info = ''ts  x{startLine:3, lines : true }'', body = ''b''\<rparr>)) = True
   \<and> stepMeta (makeStep decimalNumber \<lparr>lines = True, startLine = 4\<rparr>
        \<lparr>fence = ''```'', info = ''ts{lines:yes}'', body = ''b''\<rparr>)
       = \<lparr>lines = True, startLine = 4\<rparr>
   \<and> valueOf ''lines:true:false'' = Some ''true''"
proof -
  have a: "lines (meta (parsePart decimalNumber defaultResult ''lines:yes'')) = False
      \<and> linesSpecified (specified (parsePart decimalNumber defaultResult ''lines:yes''))"
    using lines_key_overrides
      [where Number = decimalNumber and rawPart = "''lines:yes''" and r = defaultResult
        and k = "[]" and v = "[]" and further = "[]"
        and f = "\<lparr>fence = ''```'', info = [], body = []\<rparr>" and outer = "\<lparr>lines = True, startLine = 1\<rparr>"
        and w = "[]" and ws = "[]" and rest = "[]" and pre = "[]" and entries = "[]"
        and post = "[]"]
    by (simp add: lines_examples)
  have b: "lines (stepMeta (makeStep decimalNumber \<lparr>lines = True, startLine = 1\<rparr>
        \<lparr>fence = ''```'', info = ''ts {lines:yes}'', body = ''b''\<rparr>)) = False"
    using lines_key_overrides
      [where Number = decimalNumber and rawPart = "[]" and r = defaultResult
        and k = "[]" and v = "[]" and further = "[]"
        and f = "\<lparr>fence = ''```'', info = ''ts {lines:yes}'', body = ''b''\<rparr>"
        and outer = "\<lparr>lines = True, startLine = 1\<rparr>"
        and w = "''ts''" and ws = "'' ''" and rest = "[]" and pre = "[]"
        and entries = "[''lines:yes'']" and post = "[]"]
    by (simp add: lines_examples isWhiteSpace_def isLineTerminator_def)
  have c: "lines (stepMeta (makeStep decimalNumber \<lparr>lines = False, startLine = 1\<rparr>
        \<lparr>fence = ''```'', info = ''ts  x{startLine:3, lines : true }'', body = ''b''\<rparr>)) = True"
    using lines_key_overrides
      [where Number = decimalNumber and rawPart = "[]" and r = defaultResult
        and k = "[]" and v = "[]" and further = "[]"
        and f = "\<lparr>fence = ''```'', info = ''ts  x{startLine:3, lines : true }'', body = ''b''\<rparr>"
        and outer = "\<lparr>lines = False, startLine = 1\<rparr>"
        and w = "''ts''" and ws = "''  ''" and rest = "[]" and pre = "''x''"
        and entries = "[''startLine:3'', '' lines : true '']" and post = "[]"]
    by (simp add: lines_examples isWhiteSpace_def isLineTerminator_def)
  have d: "stepMeta (makeStep decimalNumber \<lparr>lines = True, startLine = 4\<rparr>
        \<lparr>fence = ''```'', info = ''ts{lines:yes}'', body = ''b''\<rparr>)
       = \<lparr>lines = True, startLine = 4\<rparr>"
    using lines_key_overrides
      [where Number = decimalNumber and rawPart = "[]" and r = defaultResult
        and k = "[]" and v = "[]" and further = "[]"
        and f = "\<lparr>fence = ''```'', info = ''ts{lines:yes}'', body = ''b''\<rparr>"
        and outer = "\<lparr>lines = True, startLine = 4\<rparr>"
        and w = "[]" and ws = "[]" and rest = "[]" and pre = "[]" and entries = "[]"
        and post = "[]"]
    by (simp add: isWhiteSpace_def)
  have e: "valueOf ''lines:true:false'' = Some ''true''"
    using lines_key_overrides
      [where Number = decimalNumber and rawPart = "[]" and r = defaultResult
        and k = "''lines''" and v = "''true''" and further = "'':false''"
        and f = "\<lparr>fence = ''```'', info = [], body = []\<rparr>" and outer = "\<lparr>lines = True, startLine = 1\<rparr>"
        and w = "[]" and ws = "[]" and rest = "[]" and pre = "[]" and entries = "[]"
        and post = "[]"]
    by (simp add: trim_def isWhiteSpace_def)
  from a b c d e show ?thesis by simp
qed

text \<open>
  Against C10 as it was written, which lets every \<open>lines\<close> key of a step's own metadata
  block the inheritance. In \<open>firstWordDoc\<close> the block has \<open>lines:true\<close> and every step writes
  \<open>lines:false\<close>: the steps that write it as the whole info string, or right after the
  language, keep \<open>lines = true\<close>, and only the step that writes it after the language and
  a space has \<open>lines = false\<close>. And the value text \<open>true:false\<close> resolves to true.
\<close>

theorem first_word_metadata_is_not_read:
  "lines (outerMeta (hd (blocks (parseMagicMove decimalNumber firstWordDoc))))
   \<and> map (lines \<circ> stepMeta) (steps (hd (blocks (parseMagicMove decimalNumber firstWordDoc))))
       = [True, True, False]
   \<and> lines (stepMeta (makeStep decimalNumber \<lparr>lines = False, startLine = 1\<rparr>
        \<lparr>fence = ''```'', info = ''ts {lines:true:false}'', body = []\<rparr>))"
  by code_simp

section \<open>Properties of the export\<close>

text \<open>When a guard of \<open>onExport\<close> returns, nothing was set: there was no recording.\<close>

lemma onExport_guard:
  "\<not> canvasRef env \<or> stepLayouts env = None \<or> stepLayouts env = Some [] \<Longrightarrow>
   onExport env events result s = s"
  by (auto simp: onExport_def)





section \<open>Properties of the token animation\<close>

lemma map_snd_occurrenceKeys: "map snd (occurrenceKeys seen ts) = ts"
  by (induction ts arbitrary: seen) simp_all

lemma occurrenceKeys_text: "p \<in> set (occurrenceKeys seen ts) \<Longrightarrow> fst (fst p) = tokenText (snd p)"
  by (induction ts arbitrary: seen) auto

text \<open>The occurrence index of a token is at least the number of earlier tokens with its text.\<close>

lemma occurrenceKeys_count_le:
  "k \<in> set (map fst (occurrenceKeys seen ts)) \<Longrightarrow> count_list seen (fst k) \<le> snd k"
proof (induction ts arbitrary: seen)
  case Nil
  then show ?case by simp
next
  case (Cons t ts)
  show ?case
  proof (cases "k = (tokenText t, count_list seen (tokenText t))")
    case True
    then show ?thesis by simp
  next
    case False
    with Cons.prems have "k \<in> set (map fst (occurrenceKeys (tokenText t # seen) ts))" by simp
    from Cons.IH [OF this] show ?thesis by (simp split: if_splits)
  qed
qed

text \<open>So no two tokens of a layout have the same key.\<close>

lemma distinct_occurrenceKeys: "distinct (map fst (occurrenceKeys seen ts))"
proof (induction ts arbitrary: seen)
  case Nil
  show ?case by simp
next
  case (Cons t ts)
  have "(tokenText t, count_list seen (tokenText t))
      \<notin> set (map fst (occurrenceKeys (tokenText t # seen) ts))"
  proof
    assume "(tokenText t, count_list seen (tokenText t))
      \<in> set (map fst (occurrenceKeys (tokenText t # seen) ts))"
    from occurrenceKeys_count_le [OF this] show False by simp
  qed
  with Cons.IH [of "tokenText t # seen"] show ?case by simp
qed

text \<open>
  With distinct keys on both sides, the matched entries of one list, read in the
  other list, are the matched entries of the other list.
\<close>

lemma via_keys:
  "map (\<lambda>p. F (fst p)) (filter (\<lambda>p. Q (fst p)) xs) = map F (filter Q (map fst xs))"
  by (induction xs) simp_all

lemma has_key: "(map_of ys k \<noteq> None) = (k \<in> set (map fst ys))"
  by (simp add: map_of_eq_None_iff)

lemma matched_left:
  "map (\<lambda>p. the (map_of ys (fst p))) (filter (\<lambda>p. map_of ys (fst p) \<noteq> None) xs)
   = map (\<lambda>k. the (map_of ys k)) (filter (\<lambda>k. k \<in> set (map fst ys)) (map fst xs))"
  unfolding has_key by (rule via_keys)

lemma matched_right:
  assumes "distinct (map fst ys)"
  shows "map snd (filter (\<lambda>p. map_of xs (fst p) \<noteq> None) ys)
   = map (\<lambda>k. the (map_of ys k)) (filter (\<lambda>k. k \<in> set (map fst xs)) (map fst ys))"
proof -
  have "map snd (filter (\<lambda>p. fst p \<in> set (map fst xs)) ys)
      = map (\<lambda>p. the (map_of ys (fst p))) (filter (\<lambda>p. fst p \<in> set (map fst xs)) ys)"
  proof (rule map_cong [OF refl])
    fix p assume "p \<in> set (filter (\<lambda>p. fst p \<in> set (map fst xs)) ys)"
    then have "(fst p, snd p) \<in> set ys" by simp
    with assms have "map_of ys (fst p) = Some (snd p)" by (rule map_of_is_SomeI)
    then show "snd p = the (map_of ys (fst p))" by simp
  qed
  also have "\<dots> = map (\<lambda>k. the (map_of ys k)) (filter (\<lambda>k. k \<in> set (map fst xs)) (map fst ys))"
    by (rule via_keys)
  finally show ?thesis unfolding has_key .
qed

lemma mset_map_split:
  "mset (map g xs) = mset (map g (filter P xs)) + mset (map g (filter (\<lambda>x. \<not> P x) xs))"
  by (induction xs) simp_all

lemma matched_mset:
  assumes "distinct (map fst xs)" and "distinct (map fst ys)"
  shows "mset (map (\<lambda>p. the (map_of ys (fst p))) (filter (\<lambda>p. map_of ys (fst p) \<noteq> None) xs))
       = mset (map snd (filter (\<lambda>p. map_of xs (fst p) \<noteq> None) ys))"
proof -
  have d1: "distinct (filter (\<lambda>k. k \<in> set (map fst ys)) (map fst xs))"
    using assms(1) by (rule distinct_filter)
  have d2: "distinct (filter (\<lambda>k. k \<in> set (map fst xs)) (map fst ys))"
    using assms(2) by (rule distinct_filter)
  have "set (filter (\<lambda>k. k \<in> set (map fst ys)) (map fst xs))
      = set (filter (\<lambda>k. k \<in> set (map fst xs)) (map fst ys))"
    by auto
  with set_eq_iff_mset_eq_distinct [OF d1 d2]
  have "mset (filter (\<lambda>k. k \<in> set (map fst ys)) (map fst xs))
      = mset (filter (\<lambda>k. k \<in> set (map fst xs)) (map fst ys))"
    by blast
  then have "image_mset (\<lambda>k. the (map_of ys k))
        (mset (filter (\<lambda>k. k \<in> set (map fst ys)) (map fst xs)))
      = image_mset (\<lambda>k. the (map_of ys k))
        (mset (filter (\<lambda>k. k \<in> set (map fst xs)) (map fst ys)))"
    by (rule arg_cong)
  then show ?thesis
    unfolding matched_left matched_right [OF assms(2)] mset_map .
qed

lemma lerp_ends: "lerp a b 0 = a" "lerp a b 1 = b"
  by (simp_all add: lerp_def)

lemma movedToken_0: "movedToken a b 0 = shown 1 a"
  by (simp add: movedToken_def shown_def lerp_ends)

lemma movedToken_1: "tokenText a = tokenText b \<Longrightarrow> movedToken a b 1 = shown 1 b"
  by (simp add: movedToken_def shown_def lerp_ends)

lemma animate_at_0:
  "animateLayouts A B 0 = map (shown 1) (tokens A) @ map (shown 0) (addedTokens A B)"
proof -
  have "map (\<lambda>p. case map_of (occurrenceKeys [] (tokens B)) (fst p) of
                  Some b \<Rightarrow> movedToken (snd p) b 0
                | None \<Rightarrow> shown (1 - 0) (snd p))
         (occurrenceKeys [] (tokens A))
      = map (\<lambda>p. shown 1 (snd p)) (occurrenceKeys [] (tokens A))"
    by (rule map_cong [OF refl]) (simp add: movedToken_0 split: option.splits)
  also have "\<dots> = map (shown 1) (map snd (occurrenceKeys [] (tokens A)))"
    by (simp only: map_map comp_def)
  also have "\<dots> = map (shown 1) (tokens A)"
    by (simp only: map_snd_occurrenceKeys)
  finally have first: "map (\<lambda>p. case map_of (occurrenceKeys [] (tokens B)) (fst p) of
                  Some b \<Rightarrow> movedToken (snd p) b 0
                | None \<Rightarrow> shown (1 - 0) (snd p))
         (occurrenceKeys [] (tokens A)) = map (shown 1) (tokens A)" .
  have second: "map (\<lambda>p. shown 0 (snd p))
        (filter (\<lambda>p. map_of (occurrenceKeys [] (tokens A)) (fst p) = None)
           (occurrenceKeys [] (tokens B)))
      = map (shown 0) (addedTokens A B)"
    unfolding addedTokens_def by (simp only: map_map comp_def)
  show ?thesis
    unfolding animateLayouts_def Let_def first second ..
qed

lemma animate_at_1:
  "mset (animateLayouts A B 1)
     = mset (map (shown 1) (tokens B)) + mset (map (shown 0) (removedTokens A B))"
proof -
  define xs where "xs = occurrenceKeys [] (tokens A)"
  define ys where "ys = occurrenceKeys [] (tokens B)"
  define g where "g = (\<lambda>p. case map_of ys (fst p) of
      Some b \<Rightarrow> movedToken (snd p) b 1 | None \<Rightarrow> shown (1 - 1) (snd p))"
  have dx: "distinct (map fst xs)" and dy: "distinct (map fst ys)"
    unfolding xs_def ys_def by (rule distinct_occurrenceKeys)+
  have unfolded: "animateLayouts A B 1
      = map g xs @ map (\<lambda>p. shown 1 (snd p)) (filter (\<lambda>p. map_of xs (fst p) = None) ys)"
    unfolding animateLayouts_def Let_def g_def xs_def ys_def ..
  have added: "map (\<lambda>p. shown 1 (snd p)) (filter (\<lambda>p. map_of xs (fst p) = None) ys)
      = map (shown 1) (addedTokens A B)"
    unfolding addedTokens_def xs_def ys_def by (simp only: map_map comp_def)
  have matched: "map g (filter (\<lambda>p. map_of ys (fst p) \<noteq> None) xs)
      = map (shown 1) (map (\<lambda>p. the (map_of ys (fst p)))
          (filter (\<lambda>p. map_of ys (fst p) \<noteq> None) xs))"
    unfolding map_map comp_def
  proof (rule map_cong [OF refl])
    fix p assume "p \<in> set (filter (\<lambda>p. map_of ys (fst p) \<noteq> None) xs)"
    then have px: "p \<in> set xs" and "map_of ys (fst p) \<noteq> None" by simp_all
    then obtain b where b: "map_of ys (fst p) = Some b" by blast
    then have "(fst p, b) \<in> set ys" by (rule map_of_SomeD)
    then have "fst (fst p) = tokenText b"
      unfolding ys_def by (drule_tac occurrenceKeys_text) simp
    moreover from px have "fst (fst p) = tokenText (snd p)"
      unfolding xs_def by (rule occurrenceKeys_text)
    ultimately have "tokenText (snd p) = tokenText b" by simp
    then show "g p = shown 1 (the (map_of ys (fst p)))"
      by (simp add: g_def b movedToken_1)
  qed
  have removed: "map g (filter (\<lambda>p. \<not> map_of ys (fst p) \<noteq> None) xs)
      = map (shown 0) (removedTokens A B)"
  proof -
    have "map g (filter (\<lambda>p. \<not> map_of ys (fst p) \<noteq> None) xs)
        = map (\<lambda>p. shown 0 (snd p)) (filter (\<lambda>p. \<not> map_of ys (fst p) \<noteq> None) xs)"
      by (rule map_cong [OF refl]) (simp add: g_def)
    also have "\<dots> = map (shown 0) (removedTokens A B)"
      unfolding removedTokens_def xs_def ys_def by (simp add: comp_def)
    finally show ?thesis .
  qed
  have split_ys: "mset (tokens B)
      = mset (map snd (filter (\<lambda>p. map_of xs (fst p) \<noteq> None) ys)) + mset (addedTokens A B)"
  proof -
    have s: "mset (map snd ys)
        = mset (map snd (filter (\<lambda>p. map_of xs (fst p) \<noteq> None) ys))
          + mset (map snd (filter (\<lambda>p. \<not> map_of xs (fst p) \<noteq> None) ys))"
      by (rule mset_map_split)
    have e1: "map snd ys = tokens B"
      unfolding ys_def by (rule map_snd_occurrenceKeys)
    have e2: "map snd (filter (\<lambda>p. \<not> map_of xs (fst p) \<noteq> None) ys) = addedTokens A B"
      unfolding addedTokens_def xs_def ys_def by simp
    from s show ?thesis unfolding e1 e2 .
  qed
  have mm: "mset (map g (filter (\<lambda>p. map_of ys (fst p) \<noteq> None) xs))
      = image_mset (shown 1)
          (mset (map snd (filter (\<lambda>p. map_of xs (fst p) \<noteq> None) ys)))"
  proof -
    have "mset (map g (filter (\<lambda>p. map_of ys (fst p) \<noteq> None) xs))
        = mset (map (shown 1) (map (\<lambda>p. the (map_of ys (fst p)))
            (filter (\<lambda>p. map_of ys (fst p) \<noteq> None) xs)))"
      by (simp only: matched)
    also have "\<dots> = image_mset (shown 1) (mset (map (\<lambda>p. the (map_of ys (fst p)))
            (filter (\<lambda>p. map_of ys (fst p) \<noteq> None) xs)))"
      by (rule mset_map)
    also have "\<dots> = image_mset (shown 1)
          (mset (map snd (filter (\<lambda>p. map_of xs (fst p) \<noteq> None) ys)))"
      by (simp only: matched_mset [OF dx dy])
    finally show ?thesis .
  qed
  have "mset (animateLayouts A B 1)
      = mset (map g xs) + mset (map (shown 1) (addedTokens A B))"
    unfolding unfolded added by simp
  also have "mset (map g xs)
      = mset (map g (filter (\<lambda>p. map_of ys (fst p) \<noteq> None) xs))
        + mset (map g (filter (\<lambda>p. \<not> map_of ys (fst p) \<noteq> None) xs))"
    by (rule mset_map_split)
  also have "mset (map g (filter (\<lambda>p. map_of ys (fst p) \<noteq> None) xs))
      = image_mset (shown 1)
          (mset (map snd (filter (\<lambda>p. map_of xs (fst p) \<noteq> None) ys)))"
    by (rule mm)
  finally have "mset (animateLayouts A B 1)
      = image_mset (shown 1)
          (mset (map snd (filter (\<lambda>p. map_of xs (fst p) \<noteq> None) ys)) + mset (addedTokens A B))
        + mset (map (shown 0) (removedTokens A B))"
    unfolding removed by simp
  then show ?thesis
    unfolding split_ys [symmetric] by simp
qed

text \<open>
  C4. At progress 0 the animation yields the tokens of the source layout, each as
  it is with opacity 1, and the tokens that only the destination has with opacity
  0; so its tokens that are not transparent are the tokens of the source. At
  progress 1 it yields the tokens of the destination layout, each as it is with
  opacity 1, and the tokens that only the source has with opacity 0; so its tokens
  that are not transparent are the tokens of the destination. Both as multisets:
  the order of the result is not part of the statement.
\<close>

theorem animate_at_ends:
  "mset (animateLayouts A B 0)
     = mset (map (shown 1) (tokens A)) + mset (map (shown 0) (addedTokens A B))
   \<and> mset (filter (\<lambda>t. opacity t \<noteq> 0) (animateLayouts A B 0)) = mset (map (shown 1) (tokens A))
   \<and> mset (animateLayouts A B 1)
     = mset (map (shown 1) (tokens B)) + mset (map (shown 0) (removedTokens A B))
   \<and> mset (filter (\<lambda>t. opacity t \<noteq> 0) (animateLayouts A B 1)) = mset (map (shown 1) (tokens B))"
proof -
  have v: "\<And>ts. filter (\<lambda>t. opacity t \<noteq> 0) (map (shown 1) ts) = map (shown 1) ts"
    by (simp add: filter_map comp_def shown_def)
  have h: "\<And>ts. filter (\<lambda>t. opacity t \<noteq> 0) (map (shown 0) ts) = []"
    by (simp add: filter_map comp_def shown_def)
  have a0: "mset (animateLayouts A B 0)
     = mset (map (shown 1) (tokens A)) + mset (map (shown 0) (addedTokens A B))"
    by (simp add: animate_at_0)
  have f0: "mset (filter (\<lambda>t. opacity t \<noteq> 0) (animateLayouts A B 0))
      = mset (map (shown 1) (tokens A))"
    by (simp add: animate_at_0 v h)
  have a1: "mset (animateLayouts A B 1)
     = mset (map (shown 1) (tokens B)) + mset (map (shown 0) (removedTokens A B))"
    by (rule animate_at_1)
  have "mset (filter (\<lambda>t. opacity t \<noteq> 0) (animateLayouts A B 1))
      = filter_mset (\<lambda>t. opacity t \<noteq> 0) (mset (animateLayouts A B 1))"
    by (rule mset_filter)
  also have "\<dots> = filter_mset (\<lambda>t. opacity t \<noteq> 0) (mset (map (shown 1) (tokens B)))
      + filter_mset (\<lambda>t. opacity t \<noteq> 0) (mset (map (shown 0) (removedTokens A B)))"
    unfolding a1 by (rule filter_union_mset)
  also have "\<dots> = mset (filter (\<lambda>t. opacity t \<noteq> 0) (map (shown 1) (tokens B)))
      + mset (filter (\<lambda>t. opacity t \<noteq> 0) (map (shown 0) (removedTokens A B)))"
    by (simp only: mset_filter)
  also have "\<dots> = mset (map (shown 1) (tokens B))"
    unfolding v h by simp
  finally have f1: "mset (filter (\<lambda>t. opacity t \<noteq> 0) (animateLayouts A B 1))
      = mset (map (shown 1) (tokens B))" .
  from a0 f0 a1 f1 show ?thesis by blast
qed

lemma demo_animation:
  "addedTokens demoFrom demoTo = [demoToken ''let'' 0 0]"
  "removedTokens demoFrom demoTo = [demoToken ''x'' 20 0]"
  "tokens demoFrom = [demoToken ''x'' 0 0, demoToken ''='' 10 0, demoToken ''x'' 20 0]"
  "tokens demoTo = [demoToken ''let'' 0 0, demoToken ''x'' 40 0, demoToken ''='' 50 0]"
  by (simp_all add: addedTokens_def removedTokens_def demoFrom_def demoTo_def demoToken_def)

theorem animate_at_ends_witness:
  "mset (animateLayouts demoFrom demoTo 0)
     = mset [shown 1 (demoToken ''x'' 0 0), shown 1 (demoToken ''='' 10 0),
         shown 1 (demoToken ''x'' 20 0), shown 0 (demoToken ''let'' 0 0)]
   \<and> mset (animateLayouts demoFrom demoTo 1)
     = mset [shown 1 (demoToken ''let'' 0 0), shown 1 (demoToken ''x'' 40 0),
         shown 1 (demoToken ''='' 50 0), shown 0 (demoToken ''x'' 20 0)]"
proof -
  note t = animate_at_ends [of demoFrom demoTo]
  have a: "mset (animateLayouts demoFrom demoTo 0)
     = mset (map (shown 1) (tokens demoFrom)) + mset (map (shown 0) (addedTokens demoFrom demoTo))"
    using t by blast
  have b: "mset (animateLayouts demoFrom demoTo 1)
     = mset (map (shown 1) (tokens demoTo)) + mset (map (shown 0) (removedTokens demoFrom demoTo))"
    using t by blast
  have a': "mset (animateLayouts demoFrom demoTo 0)
     = mset [shown 1 (demoToken ''x'' 0 0), shown 1 (demoToken ''='' 10 0),
         shown 1 (demoToken ''x'' 20 0), shown 0 (demoToken ''let'' 0 0)]"
    unfolding a demo_animation by simp
  have b': "mset (animateLayouts demoFrom demoTo 1)
     = mset [shown 1 (demoToken ''let'' 0 0), shown 1 (demoToken ''x'' 40 0),
         shown 1 (demoToken ''='' 50 0), shown 0 (demoToken ''x'' 20 0)]"
    unfolding b demo_animation by simp
  from a' b' show ?thesis by blast
qed

end
